theory Spec2Isabelle
  imports Main "HOL-Library.Word"
begin

section \<open>Productivity tracker: persistence and export engine (main.cpp)\<close>

text \<open>
  A shallow embedding of the non-UI part of \<^verbatim>\<open>main.cpp\<close>. The three global vectors
  (\<^verbatim>\<open>dailyLogs\<close>, \<^verbatim>\<open>breaks\<close>, \<^verbatim>\<open>tasks\<close>), the files of the data directory and the
  system clock form one explicit state, the record \<open>world\<close>; every function of the source
  that touches them takes the world and returns the new one. What the C library and the
  operating system decide (time zone, environment, whether a file can be opened) is the
  record \<open>platform\<close>, a parameter of every definition that depends on it.
\<close>

subsection \<open>Data model\<close>

text \<open>\<^verbatim>\<open>time_t\<close>: seconds since the epoch, a signed 64-bit count that no operation of the
  program brings near its bounds; modelled as an unbounded integer.\<close>

type_synonym time_t = int

text \<open>The fields of \<^verbatim>\<open>struct tm\<close> that the program reads or writes.\<close>

record tm =
  tm_sec :: int
  tm_min :: int
  tm_hour :: int
  tm_mday :: int
  tm_mon :: int
  tm_year :: int
  tm_isdst :: int

text \<open>\<^verbatim>\<open>struct DailyLog { time_t ts; std::string type; std::string text; }\<close>\<close>

record DailyLog =
  log_ts :: time_t
  log_type :: string
  log_text :: string

text \<open>\<^verbatim>\<open>struct BreakEntry { std::string type; time_t start = 0; time_t end = 0; }\<close>;
  \<open>b_end = 0\<close> is the source's encoding of an open break.\<close>

record BreakEntry =
  b_type :: string
  b_start :: time_t
  b_end :: time_t

text \<open>\<^verbatim>\<open>struct Task { std::string name; int parent = -1; bool done = false; }\<close>;
  \<^verbatim>\<open>int\<close> is a 32-bit two's complement word.\<close>

record Task =
  t_name :: string
  t_parent :: "32 word"
  t_done :: bool

text \<open>The C library and the operating system, as far as the program uses them.
  \<open>dir_usable\<close> is the outcome of \<^verbatim>\<open>ensure_dir_exists\<close> (\<^verbatim>\<open>stat\<close>, then \<^verbatim>\<open>mkdir\<close>);
  \<open>can_open\<close> says whether opening a path for writing succeeds.\<close>

record platform =
  localtime_r :: "time_t \<Rightarrow> tm"
  gmtime_r :: "time_t \<Rightarrow> tm"
  mktime :: "tm \<Rightarrow> time_t"
  getenv_HOME :: "string option"
  dir_usable :: "string \<Rightarrow> bool"
  can_open :: "string \<Rightarrow> bool"

text \<open>The program state. \<open>clock w k\<close> is the value of the \<open>k\<close>-th call of
  \<^verbatim>\<open>time(nullptr)\<close>; \<open>ticks\<close> counts the calls made so far. \<open>files\<close> maps a path to the
  content of the file there.\<close>

record world =
  dailyLogs :: "DailyLog list"
  breaks :: "BreakEntry list"
  tasks :: "Task list"
  files :: "string \<rightharpoonup> string"
  clock :: "nat \<Rightarrow> time_t"
  ticks :: nat

definition time_now :: "world \<Rightarrow> time_t \<times> world" where
  "time_now w = (clock w (ticks w), w\<lparr>ticks := Suc (ticks w)\<rparr>)"

definition kBreakTypes :: "string list" where
  "kBreakTypes = [''Coffee'', ''Bathroom'', ''Water'', ''Lunch'', ''Stretch'']"

definition DATA_DIR_NAME :: string where
  "DATA_DIR_NAME = ''.productivity_tracker''"

subsection \<open>Strings and decimal numbers\<close>

text \<open>\<^verbatim>\<open>std::string::c_str()\<close> read back as a C string: the characters before the first NUL.\<close>

definition c_str :: "string \<Rightarrow> string" where
  "c_str s = takeWhile (\<lambda>c. c \<noteq> CHR 0x00) s"

definition digit_char :: "nat \<Rightarrow> char" where
  "digit_char d = char_of (48 + d)"

fun show_nat :: "nat \<Rightarrow> string" where
  "show_nat n = (if n < 10 then [digit_char n] else show_nat (n div 10) @ [digit_char (n mod 10)])"

declare show_nat.simps [simp del]

definition show_int :: "int \<Rightarrow> string" where
  "show_int i = (if i < 0 then CHR ''-'' # show_nat (nat (- i)) else show_nat (nat i))"

text \<open>A \<^verbatim>\<open>strftime\<close> numeric field: the decimal number, zero-padded to the field's width
  (for \<^verbatim>\<open>%Y\<close>, four digits at least).\<close>

definition pad0 :: "nat \<Rightarrow> int \<Rightarrow> string" where
  "pad0 width v = (let s = show_int v in replicate (width - length s) CHR ''0'' @ s)"

text \<open>\<^verbatim>\<open>strftime(buf, n, "%Y-%m-%d %H:%M:%S", &tm)\<close>\<close>

definition strftime_local :: "tm \<Rightarrow> string" where
  "strftime_local t =
     pad0 4 (tm_year t + 1900) @ ''-'' @ pad0 2 (tm_mon t + 1) @ ''-'' @ pad0 2 (tm_mday t)
     @ '' '' @ pad0 2 (tm_hour t) @ '':'' @ pad0 2 (tm_min t) @ '':'' @ pad0 2 (tm_sec t)"

text \<open>\<^verbatim>\<open>strftime(buf, n, "%Y-%m-%dT%H:%M:%SZ", &tm)\<close>\<close>

definition strftime_iso :: "tm \<Rightarrow> string" where
  "strftime_iso t =
     pad0 4 (tm_year t + 1900) @ ''-'' @ pad0 2 (tm_mon t + 1) @ ''-'' @ pad0 2 (tm_mday t)
     @ ''T'' @ pad0 2 (tm_hour t) @ '':'' @ pad0 2 (tm_min t) @ '':'' @ pad0 2 (tm_sec t) @ ''Z''"

text \<open>\<^verbatim>\<open>strftime(ts, n, "%Y%m%d_%H%M%S", &tm)\<close>\<close>

definition strftime_compact :: "tm \<Rightarrow> string" where
  "strftime_compact t =
     pad0 4 (tm_year t + 1900) @ pad0 2 (tm_mon t + 1) @ pad0 2 (tm_mday t)
     @ ''_'' @ pad0 2 (tm_hour t) @ pad0 2 (tm_min t) @ pad0 2 (tm_sec t)"

subsection \<open>File and time helpers\<close>

definition user_data_dir :: "platform \<Rightarrow> string" where
  "user_data_dir P =
     (case getenv_HOME P of None \<Rightarrow> ''.'' | Some home \<Rightarrow> home @ ''/'' @ DATA_DIR_NAME)"

definition ensure_dir_exists :: "platform \<Rightarrow> string \<Rightarrow> bool" where
  "ensure_dir_exists P dir = dir_usable P dir"

definition path_in_data :: "platform \<Rightarrow> string \<Rightarrow> string" where
  "path_in_data P filename =
     (let dir = user_data_dir P
      in if \<not> ensure_dir_exists P dir then filename else dir @ ''/'' @ filename)"

definition format_time_local :: "platform \<Rightarrow> time_t \<Rightarrow> string" where
  "format_time_local P t = (if t = 0 then ''(n/a)'' else strftime_local (localtime_r P t))"

definition format_iso_time :: "platform \<Rightarrow> time_t \<Rightarrow> string" where
  "format_iso_time P t = (if t = 0 then [] else strftime_iso (gmtime_r P t))"

text \<open>\<^verbatim>\<open>human_log_line(type, text, ts)\<close>: the clock is read when \<open>ts\<close> is 0.\<close>

definition human_log_line :: "platform \<Rightarrow> string \<Rightarrow> string \<Rightarrow> time_t \<Rightarrow> world \<Rightarrow> string \<times> world" where
  "human_log_line P type text ts w =
     (let (t, w1) = (if ts \<noteq> 0 then (ts, w) else time_now w)
      in (format_time_local P t @ '' - '' @ type @ '' - '' @ text, w1))"

text \<open>\<^verbatim>\<open>append_line_to_file\<close>: opens in append mode, which creates a missing file.\<close>

definition append_line_to_file :: "platform \<Rightarrow> string \<Rightarrow> string \<Rightarrow> world \<Rightarrow> bool \<times> world" where
  "append_line_to_file P path line w =
     (if \<not> can_open P path then (False, w)
      else (True, w\<lparr>files := (files w)(path \<mapsto>
              (case files w path of None \<Rightarrow> [] | Some old \<Rightarrow> old) @ line @ [CHR 0x0A])\<rparr>))"

text \<open>\<^verbatim>\<open>export_text_to_file(prefix, content)\<close>; \<open>content\<close> is a C string. An empty result
  is the source's empty path.\<close>

definition export_text_to_file :: "platform \<Rightarrow> string \<Rightarrow> string \<Rightarrow> world \<Rightarrow> string \<times> world" where
  "export_text_to_file P prefix content w =
     (let (now, w1) = time_now w;
          stamp = strftime_compact (localtime_r P now);
          filename = prefix @ ''_'' @ stamp @ ''.txt'';
          path = path_in_data P filename
      in if \<not> can_open P path then ([], w1)
         else (path, w1\<lparr>files := (files w1)(path \<mapsto> content @ [CHR 0x0A])\<rparr>))"

subsection \<open>Exports\<close>

definition is_same_local_day :: "platform \<Rightarrow> time_t \<Rightarrow> time_t \<Rightarrow> bool" where
  "is_same_local_day P a b =
     (let ta = localtime_r P a; tb = localtime_r P b
      in tm_year ta = tm_year tb \<and> tm_mon ta = tm_mon tb \<and> tm_mday ta = tm_mday tb)"

text \<open>The body of the \<^verbatim>\<open>for\<close> loop of \<^verbatim>\<open>export_hourly_logs_today\<close>, over the remaining
  events, with the stream \<^verbatim>\<open>content\<close> as accumulator.\<close>

fun hourly_loop :: "platform \<Rightarrow> time_t \<Rightarrow> DailyLog list \<Rightarrow> string \<Rightarrow> world \<Rightarrow> string \<times> world" where
  "hourly_loop P now [] content w = (content, w)"
| "hourly_loop P now (d # ds) content w =
     (if log_type d = ''HOURLY'' \<and> is_same_local_day P now (log_ts d)
      then (let (l, w1) = human_log_line P (c_str (log_type d)) (log_text d) (log_ts d) w
            in hourly_loop P now ds (content @ l @ [CHR 0x0A]) w1)
      else hourly_loop P now ds content w)"

definition export_hourly_logs_today :: "platform \<Rightarrow> world \<Rightarrow> string \<times> world" where
  "export_hourly_logs_today P w =
     (if dailyLogs w = [] then ([], w)
      else (let (now, w1) = time_now w;
                (content, w2) = hourly_loop P now (dailyLogs w1) [] w1
            in if content = [] then ([], w2)
               else export_text_to_file P ''hourly_logs_today'' (c_str content) w2))"

text \<open>\<^verbatim>\<open>json_escape\<close>: the loop over the characters, \<^verbatim>\<open>out\<close> as accumulator.\<close>

fun json_escape_loop :: "string \<Rightarrow> string \<Rightarrow> string" where
  "json_escape_loop out [] = out"
| "json_escape_loop out (c # s) =
     json_escape_loop
       (if c = CHR 0x5C then out @ [CHR 0x5C, CHR 0x5C]
        else if c = CHR 0x22 then out @ [CHR 0x5C, CHR 0x22]
        else if c = CHR 0x0A then out @ [CHR 0x5C, CHR ''n'']
        else if c = CHR 0x0D then out @ [CHR 0x5C, CHR ''r'']
        else if c = CHR 0x09 then out @ [CHR 0x5C, CHR ''t'']
        else out @ [c]) s"

definition json_escape :: "string \<Rightarrow> string" where
  "json_escape s = json_escape_loop [] s"

text \<open>The loop of \<^verbatim>\<open>export_weekly_logs_file\<close>; the accumulator is the pair of streams
  \<^verbatim>\<open>human_section\<close> and \<^verbatim>\<open>hourly_jsonl_section\<close>.\<close>

fun weekly_loop :: "platform \<Rightarrow> time_t \<Rightarrow> DailyLog list \<Rightarrow> string \<times> string \<Rightarrow> world
    \<Rightarrow> (string \<times> string) \<times> world" where
  "weekly_loop P cutoff [] acc w = (acc, w)"
| "weekly_loop P cutoff (d # ds) (human_section, hourly_jsonl_section) w =
     (if log_ts d < cutoff then weekly_loop P cutoff ds (human_section, hourly_jsonl_section) w
      else (let (l, w1) = human_log_line P (c_str (log_type d)) (log_text d) (log_ts d) w;
                human_section1 = human_section @ l @ [CHR 0x0A]
            in if log_type d = ''HOURLY''
               then (let iso = format_iso_time P (log_ts d);
                         js = ''{'' @ [CHR 0x22] @ ''type'' @ [CHR 0x22] @ '':'' @ [CHR 0x22]
                              @ ''HOURLY'' @ [CHR 0x22] @ '','' @ [CHR 0x22] @ ''timestamp''
                              @ [CHR 0x22] @ '':'' @ [CHR 0x22] @ json_escape iso @ [CHR 0x22]
                              @ '','' @ [CHR 0x22] @ ''text'' @ [CHR 0x22] @ '':'' @ [CHR 0x22]
                              @ json_escape (log_text d) @ [CHR 0x22] @ ''}''
                     in weekly_loop P cutoff ds
                          (human_section1, hourly_jsonl_section @ js @ [CHR 0x0A]) w1)
               else weekly_loop P cutoff ds (human_section1, hourly_jsonl_section) w1))"

definition week_seconds :: time_t where
  "week_seconds = 7 * 24 * 60 * 60"

definition weekly_header :: "platform \<Rightarrow> time_t \<Rightarrow> string" where
  "weekly_header P now =
     ''WEEKLY LOG EXPORT'' @ [CHR 0x0A] @ ''Generated: '' @ format_time_local P now @ [CHR 0x0A]
     @ ''Range: last 7 days'' @ [CHR 0x0A, CHR 0x0A]"

definition jsonl_delimiter :: string where
  "jsonl_delimiter =
     [CHR 0x0A] @ ''=== HOURLY_ENTRIES_JSONL (one JSON object per line) ==='' @ [CHR 0x0A]"

definition end_delimiter :: string where
  "end_delimiter = [CHR 0x0A] @ ''=== END OF EXPORT ==='' @ [CHR 0x0A]"

definition export_weekly_logs_file :: "platform \<Rightarrow> world \<Rightarrow> string \<times> world" where
  "export_weekly_logs_file P w =
     (if dailyLogs w = [] then ([], w)
      else (let (now, w1) = time_now w;
                cutoff = now - week_seconds;
                ((human_section, hourly_jsonl_section), w2) =
                   weekly_loop P cutoff (dailyLogs w1) (weekly_header P now, []) w1;
                final_content = human_section @ jsonl_delimiter @ hourly_jsonl_section
                                @ end_delimiter
            in export_text_to_file P ''weekly_logs_export'' (c_str final_content) w2))"

subsection \<open>Persistence of the event log\<close>

definition append_daily_log :: "platform \<Rightarrow> string \<Rightarrow> string \<Rightarrow> world \<Rightarrow> world" where
  "append_daily_log P type text w =
     (let (now, w1) = time_now w;
          d = \<lparr>log_ts = now, log_type = type, log_text = text\<rparr>;
          w2 = w1\<lparr>dailyLogs := dailyLogs w1 @ [d]\<rparr>;
          (line, w3) = human_log_line P type text (log_ts d) w2
      in snd (append_line_to_file P (path_in_data P ''daily_logs.txt'') line w3))"

subsection \<open>String searching and number parsing\<close>

text \<open>The members of \<^verbatim>\<open>std::string\<close> and the C library functions that the two loaders
  use. A position that the source compares with \<^verbatim>\<open>npos\<close> is an \<open>option\<close>.\<close>

fun starts_with :: "string \<Rightarrow> string \<Rightarrow> bool" where
  "starts_with [] s = True"
| "starts_with (p # ps) [] = False"
| "starts_with (p # ps) (c # cs) = (p = c \<and> starts_with ps cs)"

text \<open>\<^verbatim>\<open>s.find(pat)\<close>\<close>

fun find_str :: "string \<Rightarrow> string \<Rightarrow> nat option" where
  "find_str pat [] = (if pat = [] then Some 0 else None)"
| "find_str pat (c # cs) =
     (if starts_with pat (c # cs) then Some 0 else map_option Suc (find_str pat cs))"

text \<open>\<^verbatim>\<open>s.find(pat, pos)\<close>\<close>

definition find_str_from :: "string \<Rightarrow> string \<Rightarrow> nat \<Rightarrow> nat option" where
  "find_str_from pat s pos =
     (if pos > length s then None else map_option (\<lambda>i. i + pos) (find_str pat (drop pos s)))"

text \<open>\<^verbatim>\<open>s.rfind(pat)\<close>: the last position where \<open>pat\<close> starts.\<close>

fun rfind_str :: "string \<Rightarrow> string \<Rightarrow> nat option" where
  "rfind_str pat [] = (if pat = [] then Some 0 else None)"
| "rfind_str pat (c # cs) =
     (case rfind_str pat cs of
        Some i \<Rightarrow> Some (Suc i)
      | None \<Rightarrow> if starts_with pat (c # cs) then Some 0 else None)"

text \<open>\<^verbatim>\<open>s.find(ch)\<close> and \<^verbatim>\<open>s.find(ch, pos)\<close>\<close>

fun find_char :: "char \<Rightarrow> string \<Rightarrow> nat option" where
  "find_char ch [] = None"
| "find_char ch (c # cs) = (if c = ch then Some 0 else map_option Suc (find_char ch cs))"

definition find_char_from :: "char \<Rightarrow> string \<Rightarrow> nat \<Rightarrow> nat option" where
  "find_char_from ch s pos =
     (if pos > length s then None else map_option (\<lambda>i. i + pos) (find_char ch (drop pos s)))"

text \<open>\<^verbatim>\<open>s.find_first_not_of(chars)\<close>\<close>

fun find_first_not_of :: "string \<Rightarrow> string \<Rightarrow> nat option" where
  "find_first_not_of chars [] = None"
| "find_first_not_of chars (c # cs) =
     (if c \<notin> set chars then Some 0 else map_option Suc (find_first_not_of chars cs))"

text \<open>\<^verbatim>\<open>isspace\<close> and \<^verbatim>\<open>isdigit\<close> in the C locale.\<close>

definition isspace :: "char \<Rightarrow> bool" where
  "isspace c = (c = CHR 0x20 \<or> c = CHR 0x09 \<or> c = CHR 0x0A \<or> c = CHR 0x0B \<or> c = CHR 0x0C
                \<or> c = CHR 0x0D)"

definition isdigit :: "char \<Rightarrow> bool" where
  "isdigit c = (48 \<le> (of_char c :: nat) \<and> (of_char c :: nat) \<le> 57)"

text \<open>The value of a run of decimal digits.\<close>

definition dec_value :: "string \<Rightarrow> int" where
  "dec_value ds = foldl (\<lambda>a c. a * 10 + (int (of_char c) - 48)) 0 ds"

text \<open>\<^verbatim>\<open>std::stoi(s)\<close>: leading white space, an optional sign, decimal digits; \<open>None\<close>
  stands for the two exceptions (no digits, or a value outside \<^verbatim>\<open>int\<close>).\<close>

definition stoi :: "string \<Rightarrow> int option" where
  "stoi s =
     (let s1 = dropWhile isspace s;
          neg = (s1 \<noteq> [] \<and> hd s1 = CHR ''-'');
          s2 = (if s1 \<noteq> [] \<and> (hd s1 = CHR ''-'' \<or> hd s1 = CHR ''+'') then tl s1 else s1);
          ds = takeWhile isdigit s2;
          v = (if neg then - dec_value ds else dec_value ds)
      in if ds = [] then None
         else if v < - 2147483648 \<or> 2147483647 < v then None
         else Some v)"

text \<open>One \<^verbatim>\<open>%<width>d\<close> of \<^verbatim>\<open>sscanf\<close>: white space is skipped, a sign counts towards
  the width, at least one digit is needed. The result is the number and the unread
  rest.\<close>

definition scan_int :: "nat \<Rightarrow> string \<Rightarrow> (int \<times> string) option" where
  "scan_int width s =
     (let s1 = dropWhile isspace s
      in if s1 \<noteq> [] \<and> (hd s1 = CHR ''-'' \<or> hd s1 = CHR ''+'')
         then (let ds = takeWhile isdigit (take (width - 1) (tl s1))
               in if ds = [] then None
                  else Some (if hd s1 = CHR ''-'' then - dec_value ds else dec_value ds,
                             drop (length ds) (tl s1)))
         else (let ds = takeWhile isdigit (take width s1)
               in if ds = [] then None else Some (dec_value ds, drop (length ds) s1)))"

text \<open>A literal character of a \<^verbatim>\<open>sscanf\<close> format.\<close>

definition scan_lit :: "char \<Rightarrow> string \<Rightarrow> string option" where
  "scan_lit ch s = (case s of [] \<Rightarrow> None | c # cs \<Rightarrow> if c = ch then Some cs else None)"

text \<open>\<^verbatim>\<open>sscanf(s, "%4d-%2d-%2d %2d:%2d:%2d", ...) == 6\<close>; the blank of the format skips any
  white space.\<close>

definition sscanf_timestamp :: "string \<Rightarrow> (int \<times> int \<times> int \<times> int \<times> int \<times> int) option" where
  "sscanf_timestamp s =
     Option.bind (scan_int 4 s) (\<lambda>(y, s1).
     Option.bind (scan_lit CHR ''-'' s1) (\<lambda>s2.
     Option.bind (scan_int 2 s2) (\<lambda>(m, s3).
     Option.bind (scan_lit CHR ''-'' s3) (\<lambda>s4.
     Option.bind (scan_int 2 s4) (\<lambda>(d, s5).
     Option.bind (scan_int 2 (dropWhile isspace s5)) (\<lambda>(hh, s6).
     Option.bind (scan_lit CHR '':'' s6) (\<lambda>s7.
     Option.bind (scan_int 2 s7) (\<lambda>(mm, s8).
     Option.bind (scan_lit CHR '':'' s8) (\<lambda>s9.
     Option.bind (scan_int 2 s9) (\<lambda>(ss, s10).
     Some (y, m, d, hh, mm, ss)))))))))))"

definition parse_timestamp :: "platform \<Rightarrow> string \<Rightarrow> world \<Rightarrow> time_t \<times> world" where
  "parse_timestamp P s w =
     (case sscanf_timestamp s of
        Some (y, m, d, hh, mm, ss) \<Rightarrow>
          (let t = mktime P \<lparr>tm_sec = ss, tm_min = mm, tm_hour = hh, tm_mday = d,
                             tm_mon = m - 1, tm_year = y - 1900, tm_isdst = - 1\<rparr>
           in if t \<noteq> - 1 then (t, w) else time_now w)
      | None \<Rightarrow> time_now w)"

text \<open>The lines that successive calls of \<^verbatim>\<open>std::getline\<close> return on a file with the
  given content; \<open>cur\<close> holds the characters of the line being read. At the end of the
  file a line without characters is a failed read, which ends the loop.\<close>

fun getlines :: "string \<Rightarrow> string \<Rightarrow> string list" where
  "getlines cur [] = (if cur = [] then [] else [cur])"
| "getlines cur (c # s) = (if c = CHR 0x0A then cur # getlines [] s else getlines (cur @ [c]) s)"

subsection \<open>Task store\<close>

text \<open>One iteration of the loop of \<^verbatim>\<open>save_tasks\<close>: what is written for task \<open>i\<close>.\<close>

definition task_line :: "nat \<Rightarrow> Task \<Rightarrow> string" where
  "task_line i t =
     show_nat i @ '': ['' @ (if t_done t then ''x'' else '' '') @ ''] '' @ t_name t
     @ (if t_parent t \<noteq> - 1 then '' (parent='' @ show_int (sint (t_parent t)) @ '')'' else [])
     @ [CHR 0x0A]"

fun save_tasks_loop :: "nat \<Rightarrow> Task list \<Rightarrow> string" where
  "save_tasks_loop i [] = []"
| "save_tasks_loop i (t # ts) = task_line i t @ save_tasks_loop (Suc i) ts"

definition save_tasks :: "platform \<Rightarrow> world \<Rightarrow> world" where
  "save_tasks P w =
     (let p = path_in_data P ''tasks.txt''
      in if \<not> can_open P p then w
         else w\<lparr>files := (files w)(p \<mapsto> save_tasks_loop 0 (tasks w))\<rparr>)"

text \<open>The body of the loop of \<^verbatim>\<open>load_tasks\<close> on one non-empty line, with its steps
  as functions of their own:
  \<^verbatim>\<open>while (!rest.empty() && isspace((unsigned char)rest.back())) rest.pop_back();\<close> and
  \<^verbatim>\<open>pos = rest.find_first_not_of(" \t"); if (pos != npos) rest = rest.substr(pos);\<close>\<close>

definition strip_trailing_space :: "string \<Rightarrow> string" where
  "strip_trailing_space s = rev (dropWhile isspace (rev s))"

definition skip_blanks :: "string \<Rightarrow> string" where
  "skip_blanks rest =
     (case find_first_not_of [CHR 0x20, CHR 0x09] rest of
        Some pos \<Rightarrow> drop pos rest
      | None \<Rightarrow> rest)"

text \<open>The bracket marker: \<^verbatim>\<open>if (rest.size() >= 3 && rest[0] == '[' && rest[2] == ']') ...\<close>;
  the result is \<^verbatim>\<open>done\<close> and the new \<^verbatim>\<open>rest\<close>.\<close>

definition parse_done_marker :: "string \<Rightarrow> bool \<times> string" where
  "parse_done_marker rest =
     (if length rest \<ge> 3 \<and> rest ! 0 = CHR ''['' \<and> rest ! 2 = CHR '']''
      then (rest ! 1 = CHR ''x'' \<or> rest ! 1 = CHR ''X'',
            skip_blanks (case find_char CHR '']'' rest of
                           Some br \<Rightarrow> drop (br + 1) rest
                         | None \<Rightarrow> rest))
      else (False, rest))"

text \<open>The parent suffix: \<^verbatim>\<open>size_t ppos = rest.rfind("(parent="); ...\<close>; the result is
  \<^verbatim>\<open>parent\<close> and the new \<^verbatim>\<open>rest\<close>.\<close>

definition parse_parent_suffix :: "string \<Rightarrow> 32 word \<times> string" where
  "parse_parent_suffix rest =
     (case rfind_str ''(parent='' rest of
        None \<Rightarrow> (- 1, rest)
      | Some ppos \<Rightarrow>
          (case find_char_from CHR '')'' rest ppos of
             None \<Rightarrow> (- 1, rest)
           | Some endp \<Rightarrow>
               (let num = take (endp - (ppos + 8)) (drop (ppos + 8) rest)
                in (case stoi num of Some v \<Rightarrow> word_of_int v | None \<Rightarrow> - 1,
                    strip_trailing_space (take ppos rest)))))"

definition parse_task_line :: "string \<Rightarrow> Task" where
  "parse_task_line line =
     (let rest0 = (case find_char CHR '':'' line of None \<Rightarrow> line
                   | Some colon \<Rightarrow> drop (colon + 1) line);
          rest1 = skip_blanks rest0;
          (done, rest2) = parse_done_marker rest1;
          (parent, rest3) = parse_parent_suffix rest2
      in \<lparr>t_name = rest3, t_parent = parent, t_done = done\<rparr>)"

fun load_tasks_loop :: "string list \<Rightarrow> Task list \<Rightarrow> Task list" where
  "load_tasks_loop [] ts = ts"
| "load_tasks_loop (line # ls) ts =
     (if line = [] then load_tasks_loop ls ts
      else load_tasks_loop ls (ts @ [parse_task_line line]))"

text \<open>\<^verbatim>\<open>load_tasks\<close>: opening for reading fails when there is no file.\<close>

definition load_tasks :: "platform \<Rightarrow> world \<Rightarrow> world" where
  "load_tasks P w =
     (let w1 = w\<lparr>tasks := []\<rparr>
      in case files w1 (path_in_data P ''tasks.txt'') of
           None \<Rightarrow> w1
         | Some content \<Rightarrow> w1\<lparr>tasks := load_tasks_loop (getlines [] content) (tasks w1)\<rparr>)"

definition add_task :: "platform \<Rightarrow> string \<Rightarrow> 32 word \<Rightarrow> world \<Rightarrow> world" where
  "add_task P name parent_idx w =
     (let tt = \<lparr>t_name = name, t_parent = parent_idx, t_done = False\<rparr>;
          w1 = w\<lparr>tasks := tasks w @ [tt]\<rparr>;
          w2 = save_tasks P w1
      in append_daily_log P ''TASK'' (''Added task: '' @ name) w2)"

text \<open>The checkbox of \<^verbatim>\<open>drawTasksRecursive\<close>, which returns early on an index outside the
  vector.\<close>

definition toggle_task :: "platform \<Rightarrow> nat \<Rightarrow> bool \<Rightarrow> world \<Rightarrow> world" where
  "toggle_task P idx done w =
     (if idx \<ge> length (tasks w) then w
      else save_tasks P (w\<lparr>tasks := (tasks w)[idx := (tasks w ! idx)\<lparr>t_done := done\<rparr>]\<rparr>))"

subsection \<open>Loading the event log\<close>

fun load_daily_logs_loop :: "platform \<Rightarrow> string list \<Rightarrow> world \<Rightarrow> world" where
  "load_daily_logs_loop P [] w = w"
| "load_daily_logs_loop P (line # ls) w =
     (if line = [] then load_daily_logs_loop P ls w
      else (case find_str '' - '' line of
              Some firstDash \<Rightarrow>
                (case find_str_from '' - '' line (firstDash + 3) of
                   Some secondDash \<Rightarrow>
                     (let (t, w1) = parse_timestamp P (take firstDash line) w;
                          ty = take (secondDash - (firstDash + 3)) (drop (firstDash + 3) line);
                          restStart = secondDash + 3;
                          tx = (if restStart < length line then drop restStart line else []);
                          d = \<lparr>log_ts = t, log_type = ty, log_text = tx\<rparr>
                      in load_daily_logs_loop P ls (w1\<lparr>dailyLogs := dailyLogs w1 @ [d]\<rparr>))
                 | None \<Rightarrow>
                     (let (t, w1) = parse_timestamp P (take firstDash line) w;
                          d = \<lparr>log_ts = t, log_type = ''LOG'', log_text = drop (firstDash + 3) line\<rparr>
                      in load_daily_logs_loop P ls (w1\<lparr>dailyLogs := dailyLogs w1 @ [d]\<rparr>)))
            | None \<Rightarrow>
                (let (t, w1) = time_now w;
                     d = \<lparr>log_ts = t, log_type = ''LOG'', log_text = line\<rparr>
                 in load_daily_logs_loop P ls (w1\<lparr>dailyLogs := dailyLogs w1 @ [d]\<rparr>))))"

definition load_daily_logs :: "platform \<Rightarrow> world \<Rightarrow> world" where
  "load_daily_logs P w =
     (let w1 = w\<lparr>dailyLogs := []\<rparr>
      in case files w1 (path_in_data P ''daily_logs.txt'') of
           None \<Rightarrow> w1
         | Some content \<Rightarrow> load_daily_logs_loop P (getlines [] content) w1)"

subsection \<open>Breaks\<close>

definition start_break :: "platform \<Rightarrow> string \<Rightarrow> world \<Rightarrow> world" where
  "start_break P type w =
     (let (now, w1) = time_now w;
          b = \<lparr>b_type = type, b_start = now, b_end = 0\<rparr>;
          w2 = w1\<lparr>breaks := breaks w1 @ [b]\<rparr>
      in append_daily_log P ''BREAK_START'' (''Started break: '' @ type) w2)"

text \<open>The reverse iteration of \<^verbatim>\<open>end_last_break_of_type\<close>: the argument is the vector
  reversed; the result is the position, in the reversed vector, of the first entry of
  the type whose end is 0.\<close>

fun rscan_open :: "string \<Rightarrow> BreakEntry list \<Rightarrow> nat option" where
  "rscan_open type [] = None"
| "rscan_open type (b # bs) =
     (if b_type b = type \<and> b_end b = 0 then Some 0 else map_option Suc (rscan_open type bs))"

definition end_last_break_of_type :: "platform \<Rightarrow> string \<Rightarrow> world \<Rightarrow> world" where
  "end_last_break_of_type P type w =
     (case rscan_open type (rev (breaks w)) of
        Some k \<Rightarrow>
          (let i = length (breaks w) - 1 - k;
               (now, w1) = time_now w;
               it = (breaks w1 ! i)\<lparr>b_end := now\<rparr>;
               w2 = w1\<lparr>breaks := (breaks w1)[i := it]\<rparr>;
               msg = ''Ended break: '' @ b_type it @ '' (start '' @ format_time_local P (b_start it)
                     @ '', end '' @ format_time_local P (b_end it) @ '')''
           in append_daily_log P ''BREAK_END'' msg w2)
      | None \<Rightarrow>
          append_daily_log P ''BREAK_WARN'' (''Tried to end break but none active: '' @ type) w)"

text \<open>\<^verbatim>\<open>add_random_break\<close>; \<open>ti\<close> and \<open>m\<close> are the two draws from the generator,
  \<^verbatim>\<open>dtype(rng)\<close> in 0..4 and \<^verbatim>\<open>dmin(rng)\<close> in 1..20.\<close>

definition add_random_break :: "platform \<Rightarrow> nat \<Rightarrow> int \<Rightarrow> world \<Rightarrow> world" where
  "add_random_break P ti m w =
     (let t = kBreakTypes ! ti;
          (now1, w1) = time_now w;
          (now2, w2) = time_now w1;
          b = \<lparr>b_type = t, b_start = now1 - m * 60, b_end = now2\<rparr>;
          w3 = w2\<lparr>breaks := breaks w2 @ [b]\<rparr>;
          msg = ''Random break: '' @ b_type b @ '' ('' @ format_time_local P (b_start b)
                @ '' - '' @ format_time_local P (b_end b) @ '')''
      in append_daily_log P ''BREAK_RANDOM'' msg w3)"

subsection \<open>Clear All\<close>

definition clearAllData :: "world \<Rightarrow> world" where
  "clearAllData w = w\<lparr>dailyLogs := [], breaks := [], tasks := []\<rparr>"

subsection \<open>Callers in the UI loop\<close>

text \<open>The two export buttons of \<^verbatim>\<open>main\<close>: an \<^verbatim>\<open>EXPORT\<close> event is logged only for a
  non-empty path.\<close>

definition export_hourly_button :: "platform \<Rightarrow> world \<Rightarrow> world" where
  "export_hourly_button P w =
     (let (p, w1) = export_hourly_logs_today P w
      in if p \<noteq> [] then append_daily_log P ''EXPORT'' (''Exported hourly logs (today) to '' @ p) w1
         else w1)"

definition export_weekly_button :: "platform \<Rightarrow> world \<Rightarrow> world" where
  "export_weekly_button P w =
     (let (p, w1) = export_weekly_logs_file P w
      in if p \<noteq> [] then append_daily_log P ''EXPORT'' (''Exported weekly logs to '' @ p) w1
         else w1)"

text \<open>Sequences of break operations, as the buttons of the break panel issue them.\<close>

datatype break_op = StartBreak string | EndMostRecentOpen string | RandomBreak nat int

fun apply_break_op :: "platform \<Rightarrow> break_op \<Rightarrow> world \<Rightarrow> world" where
  "apply_break_op P (StartBreak type) w = start_break P type w"
| "apply_break_op P (EndMostRecentOpen type) w = end_last_break_of_type P type w"
| "apply_break_op P (RandomBreak ti m) w = add_random_break P ti m w"

definition run_break_ops :: "platform \<Rightarrow> break_op list \<Rightarrow> world \<Rightarrow> world" where
  "run_break_ops P ops w = fold (apply_break_op P) ops w"

text \<open>The ranges of the two \<^verbatim>\<open>uniform_int_distribution\<close>s of \<^verbatim>\<open>add_random_break\<close>.\<close>

fun draws_in_range :: "break_op \<Rightarrow> bool" where
  "draws_in_range (RandomBreak ti m) = (ti < length kBreakTypes \<and> 1 \<le> m \<and> m \<le> 20)"
| "draws_in_range _ = True"

subsection \<open>Task operations and storable tasks\<close>

text \<open>The two mutations of the task store, as the task panel issues them.\<close>

datatype task_op = Append string "32 word" | Toggle nat bool

fun apply_task_op :: "platform \<Rightarrow> task_op \<Rightarrow> world \<Rightarrow> world" where
  "apply_task_op P (Append name parent_idx) w = add_task P name parent_idx w"
| "apply_task_op P (Toggle idx done) w = toggle_task P idx done w"

definition run_task_ops :: "platform \<Rightarrow> task_op list \<Rightarrow> world \<Rightarrow> world" where
  "run_task_ops P ops w = fold (apply_task_op P) ops w"

text \<open>The tasks that the line format of \<^verbatim>\<open>tasks.txt\<close> can carry: the name is not empty,
  starts with neither a blank nor a tab and holds no line feed; the name of a task without
  parent holds no \<^verbatim>\<open>(parent=\<close> with a \<^verbatim>\<open>)\<close> after it, and the name of a task with a parent does
  not end in white space.\<close>

definition storable_task :: "Task \<Rightarrow> bool" where
  "storable_task t =
     (t_name t \<noteq> [] \<and> hd (t_name t) \<noteq> CHR 0x20 \<and> hd (t_name t) \<noteq> CHR 0x09
      \<and> CHR 0x0A \<notin> set (t_name t)
      \<and> (if t_parent t = - 1
          then (case rfind_str ''(parent='' (t_name t) of
                  None \<Rightarrow> True
                | Some ppos \<Rightarrow> find_char_from CHR '')'' (t_name t) ppos = None)
          else \<not> isspace (last (t_name t))))"

fun storable_op :: "task_op \<Rightarrow> bool" where
  "storable_op (Append name parent_idx)
     = storable_task \<lparr>t_name = name, t_parent = parent_idx, t_done = False\<rparr>"
| "storable_op (Toggle idx done) = True"

subsection \<open>Printable broken-down times\<close>

text \<open>The broken-down times that \<^verbatim>\<open>localtime_r\<close> returns for a year of four digits: the
  ranges of the fields in the C standard. On these \<^verbatim>\<open>%Y\<close> prints four digits in every C
  library, and each field fills its width in \<^verbatim>\<open>%4d-%2d-%2d %2d:%2d:%2d\<close>.\<close>

definition tm_printable :: "tm \<Rightarrow> bool" where
  "tm_printable t =
     (1000 \<le> tm_year t + 1900 \<and> tm_year t + 1900 \<le> 9999
      \<and> 0 \<le> tm_mon t \<and> tm_mon t \<le> 11
      \<and> 1 \<le> tm_mday t \<and> tm_mday t \<le> 31
      \<and> 0 \<le> tm_hour t \<and> tm_hour t \<le> 23
      \<and> 0 \<le> tm_min t \<and> tm_min t \<le> 59
      \<and> 0 \<le> tm_sec t \<and> tm_sec t \<le> 60)"

subsection \<open>Reference renderings\<close>

text \<open>What the specification says about the output, written as plain functions of an
  event: the five escapes of the JSON escaper, the human-readable line of an event and
  the JSON object of an hourly event.\<close>

definition escape_char :: "char \<Rightarrow> string" where
  "escape_char c =
     (if c = CHR 0x5C then [CHR 0x5C, CHR 0x5C]
      else if c = CHR 0x22 then [CHR 0x5C, CHR 0x22]
      else if c = CHR 0x0A then [CHR 0x5C, CHR ''n'']
      else if c = CHR 0x0D then [CHR 0x5C, CHR ''r'']
      else if c = CHR 0x09 then [CHR 0x5C, CHR ''t'']
      else [c])"

definition event_line :: "platform \<Rightarrow> DailyLog \<Rightarrow> string" where
  "event_line P d =
     format_time_local P (log_ts d) @ '' - '' @ c_str (log_type d) @ '' - '' @ log_text d
     @ [CHR 0x0A]"

definition hourly_json :: "platform \<Rightarrow> DailyLog \<Rightarrow> string" where
  "hourly_json P d =
     ''{'' @ [CHR 0x22] @ ''type'' @ [CHR 0x22] @ '':'' @ [CHR 0x22] @ ''HOURLY'' @ [CHR 0x22]
     @ '','' @ [CHR 0x22] @ ''timestamp'' @ [CHR 0x22] @ '':'' @ [CHR 0x22]
     @ concat (map escape_char (format_iso_time P (log_ts d))) @ [CHR 0x22]
     @ '','' @ [CHR 0x22] @ ''text'' @ [CHR 0x22] @ '':'' @ [CHR 0x22]
     @ concat (map escape_char (log_text d)) @ [CHR 0x22] @ ''}'' @ [CHR 0x0A]"

subsection \<open>A concrete platform\<close>

text \<open>A platform whose local time is UTC, for evaluating the definitions on concrete
  inputs: the proleptic Gregorian calendar by the usual era arithmetic.\<close>

definition civil_of_days :: "int \<Rightarrow> int \<times> int \<times> int" where
  "civil_of_days z =
     (let z1 = z + 719468;
          era = z1 div 146097;
          doe = z1 - era * 146097;
          yoe = (doe - doe div 1460 + doe div 36524 - doe div 146096) div 365;
          doy = doe - (365 * yoe + yoe div 4 - yoe div 100);
          mp = (5 * doy + 2) div 153;
          d = doy - (153 * mp + 2) div 5 + 1;
          m = (if mp < 10 then mp + 3 else mp - 9);
          y = yoe + era * 400 + (if m \<le> 2 then 1 else 0)
      in (y, m, d))"

definition days_of_civil :: "int \<Rightarrow> int \<Rightarrow> int \<Rightarrow> int" where
  "days_of_civil y m d =
     (let y1 = (if m \<le> 2 then y - 1 else y);
          era = y1 div 400;
          yoe = y1 - era * 400;
          doy = (153 * (if m > 2 then m - 3 else m + 9) + 2) div 5 + d - 1;
          doe = yoe * 365 + yoe div 4 - yoe div 100 + doy
      in era * 146097 + doe - 719468)"

definition utc_tm :: "time_t \<Rightarrow> tm" where
  "utc_tm t =
     (let (y, m, d) = civil_of_days (t div 86400); s = t mod 86400
      in \<lparr>tm_sec = s mod 60, tm_min = (s div 60) mod 60, tm_hour = s div 3600,
          tm_mday = d, tm_mon = m - 1, tm_year = y - 1900, tm_isdst = 0\<rparr>)"

definition utc_mktime :: "tm \<Rightarrow> time_t" where
  "utc_mktime t =
     days_of_civil (tm_year t + 1900) (tm_mon t + 1) (tm_mday t) * 86400
     + tm_hour t * 3600 + tm_min t * 60 + tm_sec t"

definition utc_platform :: platform where
  "utc_platform =
     \<lparr>localtime_r = utc_tm, gmtime_r = utc_tm, mktime = utc_mktime,
      getenv_HOME = Some ''/home/u'', dir_usable = (\<lambda>_. True), can_open = (\<lambda>_. True)\<rparr>"

text \<open>A world with nothing in memory or on disk whose clock starts at \<open>t0\<close> and
  advances one second per reading.\<close>

definition fresh_world :: "time_t \<Rightarrow> world" where
  "fresh_world t0 =
     \<lparr>dailyLogs = [], breaks = [], tasks = [], files = Map.empty,
      clock = (\<lambda>k. t0 + int k), ticks = 0\<rparr>"

subsection \<open>Invariant of the break store\<close>

text \<open>Every entry is open or ends no earlier than it starts, and no entry starts after
  the next clock reading.\<close>

definition breaks_inv :: "world \<Rightarrow> bool" where
  "breaks_inv w =
     (\<forall>b\<in>set (breaks w). (b_end b = 0 \<or> b_start b \<le> b_end b) \<and> b_start b \<le> clock w (ticks w))"

section \<open>Properties\<close>

subsection \<open>JSON escaping\<close>


lemma json_escape_loop_concat:
  "json_escape_loop out s = out @ concat (map escape_char s)"
  by (induction s arbitrary: out) (simp_all add: escape_char_def)

lemma json_escape_concat: "json_escape s = concat (map escape_char s)"
  by (simp add: json_escape_def json_escape_loop_concat)

text \<open>
  Claim C8. The JSON escaper maps every character on its own: backslash, double quote,
  newline, carriage return and tab become a backslash followed by one character, every
  other character is copied; the text \<^verbatim>\<open>He said "hi"\<close> followed by a newline becomes
  \<^verbatim>\<open>He said \"hi\"\n\<close>, ending in a backslash and the letter n.
\<close>

theorem json_escape_five_escapes:
  "json_escape s = concat (map escape_char s)
   \<and> escape_char c =
        (if c = CHR 0x5C then [CHR 0x5C, CHR 0x5C]
         else if c = CHR 0x22 then [CHR 0x5C, CHR 0x22]
         else if c = CHR 0x0A then [CHR 0x5C, CHR ''n'']
         else if c = CHR 0x0D then [CHR 0x5C, CHR ''r'']
         else if c = CHR 0x09 then [CHR 0x5C, CHR ''t'']
         else [c])
   \<and> json_escape (''He said '' @ [CHR 0x22] @ ''hi'' @ [CHR 0x22, CHR 0x0A])
       = ''He said '' @ [CHR 0x5C, CHR 0x22] @ ''hi'' @ [CHR 0x5C, CHR 0x22, CHR 0x5C, CHR ''n'']"
  by (simp add: json_escape_def json_escape_loop_concat escape_char_def)

subsection \<open>World bookkeeping\<close>

lemma human_log_line_fields:
  "breaks (snd (human_log_line P ty tx ts w)) = breaks w"
  "dailyLogs (snd (human_log_line P ty tx ts w)) = dailyLogs w"
  "tasks (snd (human_log_line P ty tx ts w)) = tasks w"
  "files (snd (human_log_line P ty tx ts w)) = files w"
  "clock (snd (human_log_line P ty tx ts w)) = clock w"
  "ticks w \<le> ticks (snd (human_log_line P ty tx ts w))"
  by (simp_all add: human_log_line_def time_now_def)

lemma human_log_line_stamped:
  "ts \<noteq> 0 \<Longrightarrow> human_log_line P ty tx ts w = (format_time_local P ts @ '' - '' @ ty @ '' - '' @ tx, w)"
  by (simp add: human_log_line_def)

lemma append_line_to_file_fields:
  "breaks (snd (append_line_to_file P p l w)) = breaks w"
  "dailyLogs (snd (append_line_to_file P p l w)) = dailyLogs w"
  "tasks (snd (append_line_to_file P p l w)) = tasks w"
  "clock (snd (append_line_to_file P p l w)) = clock w"
  "ticks (snd (append_line_to_file P p l w)) = ticks w"
  by (simp_all add: append_line_to_file_def)

lemma append_daily_log_fields:
  "breaks (append_daily_log P ty tx w) = breaks w"
  "tasks (append_daily_log P ty tx w) = tasks w"
  "clock (append_daily_log P ty tx w) = clock w"
  "dailyLogs (append_daily_log P ty tx w)
     = dailyLogs w @ [\<lparr>log_ts = clock w (ticks w), log_type = ty, log_text = tx\<rparr>]"
  by (simp_all add: append_daily_log_def Let_def split_beta time_now_def
        append_line_to_file_fields human_log_line_fields)

lemma append_daily_log_ticks: "ticks w < ticks (append_daily_log P ty tx w)"
proof -
  let ?w2 = "w\<lparr>ticks := Suc (ticks w),
      dailyLogs := dailyLogs w @ [\<lparr>log_ts = clock w (ticks w), log_type = ty, log_text = tx\<rparr>]\<rparr>"
  have "ticks ?w2 \<le> ticks (snd (human_log_line P ty tx (clock w (ticks w)) ?w2))"
    by (rule human_log_line_fields)
  moreover have "ticks (append_daily_log P ty tx w)
      = ticks (snd (human_log_line P ty tx (clock w (ticks w)) ?w2))"
    by (simp add: append_daily_log_def Let_def split_beta time_now_def append_line_to_file_fields)
  ultimately show ?thesis by simp
qed

lemma start_break_fields:
  "breaks (start_break P ty w) = breaks w @ [\<lparr>b_type = ty, b_start = clock w (ticks w), b_end = 0\<rparr>]"
  "clock (start_break P ty w) = clock w"
  "tasks (start_break P ty w) = tasks w"
  by (simp_all add: start_break_def Let_def time_now_def append_daily_log_fields)

lemma start_break_ticks: "ticks w < ticks (start_break P ty w)"
proof -
  let ?w2 = "w\<lparr>ticks := Suc (ticks w),
      breaks := breaks w @ [\<lparr>b_type = ty, b_start = clock w (ticks w), b_end = 0\<rparr>]\<rparr>"
  have "ticks ?w2 < ticks (append_daily_log P ''BREAK_START'' (''Started break: '' @ ty) ?w2)"
    by (rule append_daily_log_ticks)
  moreover have "start_break P ty w = append_daily_log P ''BREAK_START'' (''Started break: '' @ ty) ?w2"
    by (simp add: start_break_def Let_def time_now_def)
  ultimately show ?thesis by simp
qed

lemma rscan_open_None:
  "(rscan_open ty bs = None) = (\<forall>b\<in>set bs. \<not> (b_type b = ty \<and> b_end b = 0))"
  by (induction bs) auto

lemma rscan_open_Some:
  "rscan_open ty bs = Some k \<Longrightarrow> k < length bs \<and> b_type (bs ! k) = ty \<and> b_end (bs ! k) = 0"
  by (induction bs arbitrary: k) (auto split: if_splits)

lemma end_last_break_of_type_none:
  assumes "\<forall>b\<in>set (breaks w). \<not> (b_type b = ty \<and> b_end b = 0)"
  shows "end_last_break_of_type P ty w
     = append_daily_log P ''BREAK_WARN'' (''Tried to end break but none active: '' @ ty) w"
proof -
  from assms have "rscan_open ty (rev (breaks w)) = None"
    by (simp add: rscan_open_None)
  then show ?thesis by (simp add: end_last_break_of_type_def)
qed

lemma end_last_break_of_type_some:
  assumes "rscan_open ty (rev (breaks w)) = Some k"
  shows "breaks (end_last_break_of_type P ty w)
           = (breaks w)[length (breaks w) - 1 - k :=
                 (breaks w ! (length (breaks w) - 1 - k))\<lparr>b_end := clock w (ticks w)\<rparr>]"
    and "clock (end_last_break_of_type P ty w) = clock w"
    and "ticks w < ticks (end_last_break_of_type P ty w)"
proof -
  let ?i = "length (breaks w) - 1 - k"
  let ?it = "(breaks w ! ?i)\<lparr>b_end := clock w (ticks w)\<rparr>"
  let ?w2 = "w\<lparr>ticks := Suc (ticks w), breaks := (breaks w)[?i := ?it]\<rparr>"
  let ?msg = "''Ended break: '' @ b_type ?it @ '' (start '' @ format_time_local P (b_start ?it)
                     @ '', end '' @ format_time_local P (b_end ?it) @ '')''"
  have eq: "end_last_break_of_type P ty w = append_daily_log P ''BREAK_END'' ?msg ?w2"
    using assms by (simp add: end_last_break_of_type_def Let_def time_now_def)
  show "breaks (end_last_break_of_type P ty w) = (breaks w)[?i := ?it]"
    unfolding eq by (simp add: append_daily_log_fields)
  show "clock (end_last_break_of_type P ty w) = clock w"
    unfolding eq by (simp add: append_daily_log_fields)
  have "ticks ?w2 < ticks (append_daily_log P ''BREAK_END'' ?msg ?w2)"
    by (rule append_daily_log_ticks)
  then show "ticks w < ticks (end_last_break_of_type P ty w)"
    unfolding eq by simp
qed

lemma add_random_break_fields:
  "breaks (add_random_break P ti m w)
     = breaks w @ [\<lparr>b_type = kBreakTypes ! ti, b_start = clock w (ticks w) - m * 60,
                    b_end = clock w (Suc (ticks w))\<rparr>]"
  "clock (add_random_break P ti m w) = clock w"
  by (simp_all add: add_random_break_def Let_def time_now_def append_daily_log_fields)

lemma add_random_break_ticks: "ticks w < ticks (add_random_break P ti m w)"
proof -
  let ?b = "\<lparr>b_type = kBreakTypes ! ti, b_start = clock w (ticks w) - m * 60,
                    b_end = clock w (Suc (ticks w))\<rparr>"
  let ?w3 = "w\<lparr>ticks := Suc (Suc (ticks w)), breaks := breaks w @ [?b]\<rparr>"
  let ?msg = "''Random break: '' @ b_type ?b @ '' ('' @ format_time_local P (b_start ?b)
                @ '' - '' @ format_time_local P (b_end ?b) @ '')''"
  have eq: "add_random_break P ti m w = append_daily_log P ''BREAK_RANDOM'' ?msg ?w3"
    by (simp add: add_random_break_def Let_def time_now_def)
  have "ticks ?w3 < ticks (append_daily_log P ''BREAK_RANDOM'' ?msg ?w3)"
    by (rule append_daily_log_ticks)
  then show ?thesis unfolding eq by simp
qed


lemma breaks_inv_later:
  assumes "mono (clock w)" "breaks_inv w" "breaks w' = breaks w" "clock w' = clock w"
    "ticks w \<le> ticks w'"
  shows "breaks_inv w'"
  unfolding breaks_inv_def
proof
  fix b assume "b \<in> set (breaks w')"
  with assms have b: "(b_end b = 0 \<or> b_start b \<le> b_end b) \<and> b_start b \<le> clock w (ticks w)"
    by (simp add: breaks_inv_def)
  have "clock w (ticks w) \<le> clock w (ticks w')"
    using assms(1,5) by (rule monoD)
  with b assms(4) show "(b_end b = 0 \<or> b_start b \<le> b_end b) \<and> b_start b \<le> clock w' (ticks w')"
    by simp
qed

lemma breaks_inv_start:
  assumes "mono (clock w)" "breaks_inv w"
  shows "breaks_inv (start_break P ty w)"
  unfolding breaks_inv_def
proof
  let ?w' = "start_break P ty w"
  fix b assume "b \<in> set (breaks ?w')"
  then have "b \<in> set (breaks w) \<or> b = \<lparr>b_type = ty, b_start = clock w (ticks w), b_end = 0\<rparr>"
    by (auto simp add: start_break_fields)
  moreover have le: "clock w (ticks w) \<le> clock w (ticks ?w')"
    using assms(1) start_break_ticks [of w P ty] by (simp add: monoD)
  ultimately show "(b_end b = 0 \<or> b_start b \<le> b_end b) \<and> b_start b \<le> clock ?w' (ticks ?w')"
    using assms(2) by (auto simp add: breaks_inv_def start_break_fields)
qed

lemma breaks_inv_random:
  assumes "mono (clock w)" "breaks_inv w" "0 \<le> m"
  shows "breaks_inv (add_random_break P ti m w)"
  unfolding breaks_inv_def
proof
  let ?w' = "add_random_break P ti m w"
  let ?b = "\<lparr>b_type = kBreakTypes ! ti, b_start = clock w (ticks w) - m * 60,
                    b_end = clock w (Suc (ticks w))\<rparr>"
  fix b assume "b \<in> set (breaks ?w')"
  then have "b \<in> set (breaks w) \<or> b = ?b"
    by (auto simp add: add_random_break_fields)
  moreover have le: "clock w (ticks w) \<le> clock w (ticks ?w')"
    using assms(1) add_random_break_ticks [of w P ti m] by (simp add: monoD)
  moreover have "clock w (ticks w) \<le> clock w (Suc (ticks w))"
    using assms(1) by (simp add: monoD)
  ultimately show "(b_end b = 0 \<or> b_start b \<le> b_end b) \<and> b_start b \<le> clock ?w' (ticks ?w')"
    using assms(2,3) by (auto simp add: breaks_inv_def add_random_break_fields)
qed

lemma breaks_inv_end:
  assumes "mono (clock w)" "breaks_inv w"
  shows "breaks_inv (end_last_break_of_type P ty w)"
proof (cases "rscan_open ty (rev (breaks w))")
  case None
  then have "end_last_break_of_type P ty w
     = append_daily_log P ''BREAK_WARN'' (''Tried to end break but none active: '' @ ty) w"
    by (simp add: end_last_break_of_type_def)
  with assms show ?thesis
    using append_daily_log_ticks [of w P "''BREAK_WARN''" "''Tried to end break but none active: '' @ ty"]
    by (auto intro!: breaks_inv_later [of w] simp add: append_daily_log_fields)
next
  case (Some k)
  let ?w' = "end_last_break_of_type P ty w"
  let ?i = "length (breaks w) - 1 - k"
  let ?it = "(breaks w ! ?i)\<lparr>b_end := clock w (ticks w)\<rparr>"
  from Some have "k < length (breaks w)"
    using rscan_open_Some [of ty "rev (breaks w)" k] by simp
  then have mem: "breaks w ! ?i \<in> set (breaks w)" by simp
  have le: "clock w (ticks w) \<le> clock w (ticks ?w')"
    using assms(1) end_last_break_of_type_some(3) [OF Some, of P] by (simp add: monoD)
  show ?thesis
    unfolding breaks_inv_def
  proof
    fix b assume "b \<in> set (breaks ?w')"
    then have "b \<in> set ((breaks w)[?i := ?it])"
      by (simp add: end_last_break_of_type_some(1) [OF Some])
    then have "b \<in> set (breaks w) \<or> b = ?it"
      using set_update_subset_insert [of "breaks w" ?i ?it] by auto
    then show "(b_end b = 0 \<or> b_start b \<le> b_end b) \<and> b_start b \<le> clock ?w' (ticks ?w')"
      using assms(2) mem le
      by (auto simp add: breaks_inv_def end_last_break_of_type_some(2) [OF Some])
  qed
qed

lemma end_last_break_of_type_clock: "clock (end_last_break_of_type P ty w) = clock w"
proof (cases "rscan_open ty (rev (breaks w))")
  case None
  then show ?thesis by (simp add: end_last_break_of_type_def append_daily_log_fields)
next
  case (Some k)
  then show ?thesis by (rule end_last_break_of_type_some(2))
qed

lemma apply_break_op_inv:
  assumes "mono (clock w)" "breaks_inv w" "draws_in_range x"
  shows "breaks_inv (apply_break_op P x w) \<and> clock (apply_break_op P x w) = clock w"
  using assms
  by (cases x)
     (simp_all add: breaks_inv_start breaks_inv_end breaks_inv_random start_break_fields
        end_last_break_of_type_clock add_random_break_fields)

lemma run_break_ops_inv:
  "mono (clock w) \<Longrightarrow> breaks_inv w \<Longrightarrow> list_all draws_in_range ops
     \<Longrightarrow> breaks_inv (run_break_ops P ops w)"
proof (induction ops arbitrary: w)
  case Nil
  then show ?case by (simp add: run_break_ops_def)
next
  case (Cons x ops)
  from Cons.prems have step: "breaks_inv (apply_break_op P x w)"
      and clk: "clock (apply_break_op P x w) = clock w"
    using apply_break_op_inv [of w x P] by simp_all
  from Cons.prems clk have "mono (clock (apply_break_op P x w))" by simp
  with step Cons.prems have "breaks_inv (run_break_ops P ops (apply_break_op P x w))"
    by (intro Cons.IH) simp_all
  then show ?case by (simp add: run_break_ops_def)
qed

text \<open>
  Claim C9. Starting from an empty break store, after any sequence of StartBreak,
  EndMostRecentOpen and RandomBreak operations (the draws of the random break within the
  ranges of their distributions), and provided the successive clock readings never
  decrease, every entry of the break store has its end unset (0) or its end greater than
  or equal to its start.
\<close>

theorem break_entries_end_after_start:
  assumes "mono (clock w)" and "breaks w = []" and "list_all draws_in_range ops"
  shows "\<forall>b\<in>set (breaks (run_break_ops P ops w)). b_end b = 0 \<or> b_start b \<le> b_end b"
proof -
  from assms(2) have "breaks_inv w" by (simp add: breaks_inv_def)
  with assms have "breaks_inv (run_break_ops P ops w)" by (intro run_break_ops_inv)
  then show ?thesis by (simp add: breaks_inv_def)
qed

theorem break_entries_end_after_start_witness:
  "mono (clock (fresh_world 1704196800))
   \<and> breaks (fresh_world 1704196800) = []
   \<and> list_all draws_in_range [StartBreak ''Coffee'', RandomBreak 2 5, EndMostRecentOpen ''Coffee'']
   \<and> list_all (\<lambda>b. b_end b = 0 \<or> b_start b \<le> b_end b)
         (breaks (run_break_ops utc_platform
            [StartBreak ''Coffee'', RandomBreak 2 5, EndMostRecentOpen ''Coffee'']
            (fresh_world 1704196800)))"
proof -
  have h1: "mono (clock (fresh_world 1704196800))"
    by (simp add: fresh_world_def mono_def)
  have h2: "breaks (fresh_world 1704196800) = []"
    by (simp add: fresh_world_def)
  have h3: "list_all draws_in_range [StartBreak ''Coffee'', RandomBreak 2 5, EndMostRecentOpen ''Coffee'']"
    by (simp add: kBreakTypes_def)
  show ?thesis
    using h1 h2 h3 break_entries_end_after_start [OF h1 h2 h3, of utc_platform]
    by (simp add: list_all_iff)
qed

text \<open>
  Claim C4. From any state, two StartBreak("Coffee") followed by
  EndMostRecentOpen("Coffee") leave the break store extended by two entries: the first
  still open (end 0), the second with its end set to the clock reading of the end
  operation. And in every state without an open entry of the requested category,
  EndMostRecentOpen leaves the break store as it is and appends one \<^verbatim>\<open>BREAK_WARN\<close> event
  to the event log; the operation returns normally.
\<close>

theorem break_pairing:
  "(let w1 = start_break P ''Coffee'' w;
        w2 = start_break P ''Coffee'' w1;
        w3 = end_last_break_of_type P ''Coffee'' w2
    in breaks w3 = breaks w @
         [\<lparr>b_type = ''Coffee'', b_start = clock w (ticks w), b_end = 0\<rparr>,
          \<lparr>b_type = ''Coffee'', b_start = clock w (ticks w1), b_end = clock w (ticks w2)\<rparr>])
   \<and> ((\<forall>b\<in>set (breaks w). \<not> (b_type b = ty \<and> b_end b = 0)) \<longrightarrow>
        breaks (end_last_break_of_type P ty w) = breaks w
        \<and> dailyLogs (end_last_break_of_type P ty w) = dailyLogs w @
            [\<lparr>log_ts = clock w (ticks w), log_type = ''BREAK_WARN'',
              log_text = ''Tried to end break but none active: '' @ ty\<rparr>])"
proof
  let ?w1 = "start_break P ''Coffee'' w"
  let ?w2 = "start_break P ''Coffee'' ?w1"
  let ?b1 = "\<lparr>b_type = ''Coffee'', b_start = clock w (ticks w), b_end = 0\<rparr>"
  let ?b2 = "\<lparr>b_type = ''Coffee'', b_start = clock w (ticks ?w1), b_end = 0\<rparr>"
  have b2: "breaks ?w2 = breaks w @ [?b1, ?b2]"
    by (simp add: start_break_fields)
  then have scan: "rscan_open ''Coffee'' (rev (breaks ?w2)) = Some 0" by simp
  have "breaks (end_last_break_of_type P ''Coffee'' ?w2)
      = breaks w @ [?b1, ?b2\<lparr>b_end := clock w (ticks ?w2)\<rparr>]"
    unfolding end_last_break_of_type_some(1) [OF scan] b2
    by (simp add: start_break_fields nth_append list_update_append)
  then show "let w1 = start_break P ''Coffee'' w;
        w2 = start_break P ''Coffee'' w1;
        w3 = end_last_break_of_type P ''Coffee'' w2
    in breaks w3 = breaks w @
         [\<lparr>b_type = ''Coffee'', b_start = clock w (ticks w), b_end = 0\<rparr>,
          \<lparr>b_type = ''Coffee'', b_start = clock w (ticks w1), b_end = clock w (ticks w2)\<rparr>]"
    by (simp add: Let_def)
next
  show "(\<forall>b\<in>set (breaks w). \<not> (b_type b = ty \<and> b_end b = 0)) \<longrightarrow>
        breaks (end_last_break_of_type P ty w) = breaks w
        \<and> dailyLogs (end_last_break_of_type P ty w) = dailyLogs w @
            [\<lparr>log_ts = clock w (ticks w), log_type = ''BREAK_WARN'',
              log_text = ''Tried to end break but none active: '' @ ty\<rparr>]"
    by (simp add: end_last_break_of_type_none append_daily_log_fields)
qed

theorem break_pairing_witness:
  "list_all (\<lambda>b. \<not> (b_type b = ''Coffee'' \<and> b_end b = 0))
      (breaks ((fresh_world 1704196800)
         \<lparr>breaks := [\<lparr>b_type = ''Coffee'', b_start = 1704190000, b_end = 1704190600\<rparr>,
                     \<lparr>b_type = ''Lunch'', b_start = 1704193000, b_end = 0\<rparr>]\<rparr>))
   \<and> breaks (end_last_break_of_type utc_platform ''Coffee'' ((fresh_world 1704196800)
         \<lparr>breaks := [\<lparr>b_type = ''Coffee'', b_start = 1704190000, b_end = 1704190600\<rparr>,
                     \<lparr>b_type = ''Lunch'', b_start = 1704193000, b_end = 0\<rparr>]\<rparr>))
       = [\<lparr>b_type = ''Coffee'', b_start = 1704190000, b_end = 1704190600\<rparr>,
          \<lparr>b_type = ''Lunch'', b_start = 1704193000, b_end = 0\<rparr>]
   \<and> dailyLogs (end_last_break_of_type utc_platform ''Coffee'' ((fresh_world 1704196800)
         \<lparr>breaks := [\<lparr>b_type = ''Coffee'', b_start = 1704190000, b_end = 1704190600\<rparr>,
                     \<lparr>b_type = ''Lunch'', b_start = 1704193000, b_end = 0\<rparr>]\<rparr>))
       = [\<lparr>log_ts = 1704196800, log_type = ''BREAK_WARN'',
           log_text = ''Tried to end break but none active: Coffee''\<rparr>]"
  using break_pairing [of utc_platform "(fresh_world 1704196800)
         \<lparr>breaks := [\<lparr>b_type = ''Coffee'', b_start = 1704190000, b_end = 1704190600\<rparr>,
                     \<lparr>b_type = ''Lunch'', b_start = 1704193000, b_end = 0\<rparr>]\<rparr>" "''Coffee''"]
  by (simp add: fresh_world_def)

subsection \<open>Exports\<close>

lemma digit_char_code: "d < 10 \<Longrightarrow> of_char (digit_char d) = 48 + d"
  by (simp add: digit_char_def)

lemma show_nat_digits:
  "c \<in> set (show_nat n) \<Longrightarrow> 48 \<le> (of_char c :: nat) \<and> (of_char c :: nat) \<le> 57"
proof (induction n arbitrary: c rule: show_nat.induct)
  case (1 n)
  show ?case
  proof (cases "n < 10")
    case True
    with "1.prems" have "c = digit_char n" by (simp add: show_nat.simps [of n])
    with True show ?thesis by (simp add: digit_char_code)
  next
    case False
    with "1.prems" have "c \<in> set (show_nat (n div 10)) \<or> c = digit_char (n mod 10)"
      by (auto simp add: show_nat.simps [of n])
    then show ?thesis
    proof
      assume "c \<in> set (show_nat (n div 10))"
      with False show ?thesis by (rule "1.IH")
    next
      assume "c = digit_char (n mod 10)"
      then show ?thesis by (simp add: digit_char_code)
    qed
  qed
qed

lemma show_nat_no_nul: "CHR 0x00 \<notin> set (show_nat n)"
  using show_nat_digits [of "CHR 0x00" n] by auto

lemma show_int_no_nul: "CHR 0x00 \<notin> set (show_int i)"
  by (simp add: show_int_def show_nat_no_nul)

lemma pad0_no_nul: "CHR 0x00 \<notin> set (pad0 k v)"
  by (simp add: pad0_def Let_def show_int_no_nul)

lemma strftime_local_no_nul: "CHR 0x00 \<notin> set (strftime_local t)"
  by (simp add: strftime_local_def pad0_no_nul)

lemma format_time_local_no_nul: "CHR 0x00 \<notin> set (format_time_local P t)"
  by (simp add: format_time_local_def strftime_local_no_nul)

lemma c_str_no_nul: "CHR 0x00 \<notin> set s \<Longrightarrow> c_str s = s"
  by (auto simp add: c_str_def)

lemma weekly_frame_no_nul:
  "CHR 0x00 \<notin> set (weekly_header P now @ jsonl_delimiter @ end_delimiter)"
  by (simp add: weekly_header_def jsonl_delimiter_def end_delimiter_def format_time_local_no_nul)

lemma hourly_loop_skip:
  "\<forall>d\<in>set ds. \<not> (log_type d = ''HOURLY'' \<and> is_same_local_day P now (log_ts d))
     \<Longrightarrow> hourly_loop P now ds content w = (content, w)"
  by (induction ds) auto

lemma hourly_loop_filter:
  assumes "\<not> is_same_local_day P now 0"
  shows "hourly_loop P now ds content w =
     (content @ concat (map (event_line P)
        (filter (\<lambda>d. log_type d = ''HOURLY'' \<and> is_same_local_day P now (log_ts d)) ds)), w)"
proof (induction ds arbitrary: content)
  case Nil
  show ?case by simp
next
  case (Cons d ds)
  show ?case
  proof (cases "log_type d = ''HOURLY'' \<and> is_same_local_day P now (log_ts d)")
    case True
    with assms have "log_ts d \<noteq> 0" by auto
    with True Cons.IH show ?thesis
      by (simp add: human_log_line_stamped event_line_def)
  next
    case False
    with Cons.IH show ?thesis by auto
  qed
qed

lemma weekly_loop_skip:
  "\<forall>d\<in>set ds. log_ts d < cutoff \<Longrightarrow> weekly_loop P cutoff ds (h, j) w = ((h, j), w)"
  by (induction ds) simp_all

lemma weekly_loop_filter:
  "0 < cutoff \<Longrightarrow>
   weekly_loop P cutoff ds (h, j) w =
     ((h @ concat (map (event_line P) (filter (\<lambda>d. cutoff \<le> log_ts d) ds)),
       j @ concat (map (hourly_json P)
             (filter (\<lambda>d. log_type d = ''HOURLY'') (filter (\<lambda>d. cutoff \<le> log_ts d) ds)))), w)"
proof (induction ds arbitrary: h j)
  case Nil
  show ?case by simp
next
  case (Cons d ds)
  show ?case
  proof (cases "log_ts d < cutoff")
    case True
    then show ?thesis using Cons.IH [OF Cons.prems] by simp
  next
    case False
    with Cons.prems have nz: "log_ts d \<noteq> 0" by simp
    from False show ?thesis
      using Cons.IH [OF Cons.prems] nz
      by (simp add: human_log_line_stamped event_line_def hourly_json_def
            json_escape_def json_escape_loop_concat Let_def)
  qed
qed


lemma path_in_data_nonempty: "filename \<noteq> [] \<Longrightarrow> path_in_data P filename \<noteq> []"
  by (simp add: path_in_data_def Let_def)

lemma export_text_to_file_ok:
  assumes "can_open P (path_in_data P
             (prefix @ ''_'' @ strftime_compact (localtime_r P (clock w (ticks w))) @ ''.txt''))"
  shows "export_text_to_file P prefix content w =
     (path_in_data P (prefix @ ''_'' @ strftime_compact (localtime_r P (clock w (ticks w))) @ ''.txt''),
      w\<lparr>ticks := Suc (ticks w),
        files := (files w)(path_in_data P
             (prefix @ ''_'' @ strftime_compact (localtime_r P (clock w (ticks w))) @ ''.txt'')
           \<mapsto> content @ [CHR 0x0A])\<rparr>)"
  using assms by (simp add: export_text_to_file_def time_now_def Let_def)

lemma export_hourly_logs_today_none:
  assumes "\<forall>d\<in>set (dailyLogs w).
             \<not> (log_type d = ''HOURLY'' \<and> is_same_local_day P (clock w (ticks w)) (log_ts d))"
  shows "export_hourly_logs_today P w
           = ([], if dailyLogs w = [] then w else w\<lparr>ticks := Suc (ticks w)\<rparr>)"
proof (cases "dailyLogs w = []")
  case True
  then show ?thesis by (simp add: export_hourly_logs_today_def)
next
  case False
  have "hourly_loop P (clock w (ticks w)) (dailyLogs w) [] (w\<lparr>ticks := Suc (ticks w)\<rparr>)
          = ([], w\<lparr>ticks := Suc (ticks w)\<rparr>)"
    using assms by (rule hourly_loop_skip)
  with False show ?thesis
    by (simp add: export_hourly_logs_today_def time_now_def)
qed

text \<open>Values of the UTC platform at the instants used in the examples below.\<close>

lemma utc_tm_examples:
  "utc_tm 0 = \<lparr>tm_sec = 0, tm_min = 0, tm_hour = 0, tm_mday = 1, tm_mon = 0, tm_year = 70, tm_isdst = 0\<rparr>"
  "utc_tm 1704196800 = \<lparr>tm_sec = 0, tm_min = 0, tm_hour = 12, tm_mday = 2, tm_mon = 0, tm_year = 124, tm_isdst = 0\<rparr>"
  "utc_tm 1704196801 = \<lparr>tm_sec = 1, tm_min = 0, tm_hour = 12, tm_mday = 2, tm_mon = 0, tm_year = 124, tm_isdst = 0\<rparr>"
  "utc_tm 1704153599 = \<lparr>tm_sec = 59, tm_min = 59, tm_hour = 23, tm_mday = 1, tm_mon = 0, tm_year = 124, tm_isdst = 0\<rparr>"
  "utc_tm 1704153601 = \<lparr>tm_sec = 1, tm_min = 0, tm_hour = 0, tm_mday = 2, tm_mon = 0, tm_year = 124, tm_isdst = 0\<rparr>"
  by code_simp+

lemma strftime_examples:
  "strftime_local \<lparr>tm_sec = 1, tm_min = 0, tm_hour = 0, tm_mday = 2, tm_mon = 0, tm_year = 124, tm_isdst = 0\<rparr>
     = ''2024-01-02 00:00:01''"
  "strftime_compact \<lparr>tm_sec = 1, tm_min = 0, tm_hour = 12, tm_mday = 2, tm_mon = 0, tm_year = 124, tm_isdst = 0\<rparr>
     = ''20240102_120001''"
  by code_simp+

lemma utc_tm_examples2:
  "utc_tm 1703592000 = \<lparr>tm_sec = 0, tm_min = 0, tm_hour = 12, tm_mday = 26, tm_mon = 11, tm_year = 123, tm_isdst = 0\<rparr>"
  by code_simp

lemma strftime_examples2:
  "strftime_local \<lparr>tm_sec = 0, tm_min = 0, tm_hour = 12, tm_mday = 2, tm_mon = 0, tm_year = 124, tm_isdst = 0\<rparr>
     = ''2024-01-02 12:00:00''"
  "strftime_local \<lparr>tm_sec = 0, tm_min = 0, tm_hour = 12, tm_mday = 26, tm_mon = 11, tm_year = 123, tm_isdst = 0\<rparr>
     = ''2023-12-26 12:00:00''"
  "strftime_iso \<lparr>tm_sec = 0, tm_min = 0, tm_hour = 12, tm_mday = 26, tm_mon = 11, tm_year = 123, tm_isdst = 0\<rparr>
     = ''2023-12-26T12:00:00Z''"
  by code_simp+

text \<open>
  Claim C7. On an empty event log both exports return the empty path and leave the
  world, its files included, exactly as it was, and neither export button logs an
  \<^verbatim>\<open>EXPORT\<close> event or reports an error. On a log without an \<^verbatim>\<open>HOURLY\<close> event on the
  local calendar day of the clock reading, the hourly export returns the empty path and
  creates no file, and its button leaves the event log unchanged.
\<close>

theorem export_nothing_to_export:
  "(dailyLogs w = [] \<longrightarrow>
      export_hourly_logs_today P w = ([], w) \<and> export_weekly_logs_file P w = ([], w)
      \<and> export_hourly_button P w = w \<and> export_weekly_button P w = w)
   \<and> ((\<forall>d\<in>set (dailyLogs w).
          \<not> (log_type d = ''HOURLY'' \<and> is_same_local_day P (clock w (ticks w)) (log_ts d))) \<longrightarrow>
        fst (export_hourly_logs_today P w) = []
        \<and> files (snd (export_hourly_logs_today P w)) = files w
        \<and> files (export_hourly_button P w) = files w
        \<and> dailyLogs (export_hourly_button P w) = dailyLogs w)"
proof (intro conjI impI)
  assume e: "dailyLogs w = []"
  show "export_hourly_logs_today P w = ([], w)"
    using e by (simp add: export_hourly_logs_today_def)
  show "export_weekly_logs_file P w = ([], w)"
    using e by (simp add: export_weekly_logs_file_def)
  show "export_hourly_button P w = w"
    using e by (simp add: export_hourly_button_def export_hourly_logs_today_def)
  show "export_weekly_button P w = w"
    using e by (simp add: export_weekly_button_def export_weekly_logs_file_def)
next
  assume n: "\<forall>d\<in>set (dailyLogs w).
          \<not> (log_type d = ''HOURLY'' \<and> is_same_local_day P (clock w (ticks w)) (log_ts d))"
  note r = export_hourly_logs_today_none [OF n]
  show "fst (export_hourly_logs_today P w) = []" by (simp add: r)
  show "files (snd (export_hourly_logs_today P w)) = files w" by (simp add: r)
  show "files (export_hourly_button P w) = files w"
    by (simp add: export_hourly_button_def r)
  show "dailyLogs (export_hourly_button P w) = dailyLogs w"
    by (simp add: export_hourly_button_def r)
qed

theorem export_nothing_to_export_witness:
  "dailyLogs (fresh_world 1704196800) = []
   \<and> export_hourly_logs_today utc_platform (fresh_world 1704196800) = ([], fresh_world 1704196800)
   \<and> export_weekly_logs_file utc_platform (fresh_world 1704196800) = ([], fresh_world 1704196800)
   \<and> export_hourly_button utc_platform (fresh_world 1704196800) = fresh_world 1704196800
   \<and> list_all (\<lambda>d. \<not> (log_type d = ''HOURLY''
          \<and> is_same_local_day utc_platform (clock ((fresh_world 1704196800)
            \<lparr>dailyLogs := [\<lparr>log_ts = 1704153599, log_type = ''HOURLY'', log_text = ''late''\<rparr>,
                           \<lparr>log_ts = 1704153601, log_type = ''DAILY_STATUS'', log_text = ''ok''\<rparr>]\<rparr>) (ticks ((fresh_world 1704196800)
            \<lparr>dailyLogs := [\<lparr>log_ts = 1704153599, log_type = ''HOURLY'', log_text = ''late''\<rparr>,
                           \<lparr>log_ts = 1704153601, log_type = ''DAILY_STATUS'', log_text = ''ok''\<rparr>]\<rparr>))) (log_ts d))) (dailyLogs ((fresh_world 1704196800)
            \<lparr>dailyLogs := [\<lparr>log_ts = 1704153599, log_type = ''HOURLY'', log_text = ''late''\<rparr>,
                           \<lparr>log_ts = 1704153601, log_type = ''DAILY_STATUS'', log_text = ''ok''\<rparr>]\<rparr>))
   \<and> fst (export_hourly_logs_today utc_platform ((fresh_world 1704196800)
            \<lparr>dailyLogs := [\<lparr>log_ts = 1704153599, log_type = ''HOURLY'', log_text = ''late''\<rparr>,
                           \<lparr>log_ts = 1704153601, log_type = ''DAILY_STATUS'', log_text = ''ok''\<rparr>]\<rparr>)) = []
   \<and> files (snd (export_hourly_logs_today utc_platform ((fresh_world 1704196800)
            \<lparr>dailyLogs := [\<lparr>log_ts = 1704153599, log_type = ''HOURLY'', log_text = ''late''\<rparr>,
                           \<lparr>log_ts = 1704153601, log_type = ''DAILY_STATUS'', log_text = ''ok''\<rparr>]\<rparr>))) = Map.empty
   \<and> dailyLogs (export_hourly_button utc_platform ((fresh_world 1704196800)
            \<lparr>dailyLogs := [\<lparr>log_ts = 1704153599, log_type = ''HOURLY'', log_text = ''late''\<rparr>,
                           \<lparr>log_ts = 1704153601, log_type = ''DAILY_STATUS'', log_text = ''ok''\<rparr>]\<rparr>)) = dailyLogs ((fresh_world 1704196800)
            \<lparr>dailyLogs := [\<lparr>log_ts = 1704153599, log_type = ''HOURLY'', log_text = ''late''\<rparr>,
                           \<lparr>log_ts = 1704153601, log_type = ''DAILY_STATUS'', log_text = ''ok''\<rparr>]\<rparr>)"
proof -
  have h1: "dailyLogs (fresh_world 1704196800) = []"
    by (simp add: fresh_world_def)
  have h2: "\<forall>d\<in>set (dailyLogs ((fresh_world 1704196800)
            \<lparr>dailyLogs := [\<lparr>log_ts = 1704153599, log_type = ''HOURLY'', log_text = ''late''\<rparr>,
                           \<lparr>log_ts = 1704153601, log_type = ''DAILY_STATUS'', log_text = ''ok''\<rparr>]\<rparr>)). \<not> (log_type d = ''HOURLY''
          \<and> is_same_local_day utc_platform (clock ((fresh_world 1704196800)
            \<lparr>dailyLogs := [\<lparr>log_ts = 1704153599, log_type = ''HOURLY'', log_text = ''late''\<rparr>,
                           \<lparr>log_ts = 1704153601, log_type = ''DAILY_STATUS'', log_text = ''ok''\<rparr>]\<rparr>) (ticks ((fresh_world 1704196800)
            \<lparr>dailyLogs := [\<lparr>log_ts = 1704153599, log_type = ''HOURLY'', log_text = ''late''\<rparr>,
                           \<lparr>log_ts = 1704153601, log_type = ''DAILY_STATUS'', log_text = ''ok''\<rparr>]\<rparr>))) (log_ts d))"
    by (simp add: fresh_world_def is_same_local_day_def utc_platform_def utc_tm_examples)
  have f: "files ((fresh_world 1704196800)
            \<lparr>dailyLogs := [\<lparr>log_ts = 1704153599, log_type = ''HOURLY'', log_text = ''late''\<rparr>,
                           \<lparr>log_ts = 1704153601, log_type = ''DAILY_STATUS'', log_text = ''ok''\<rparr>]\<rparr>) = Map.empty"
    by (simp add: fresh_world_def)
  show ?thesis
    using export_nothing_to_export [of "fresh_world 1704196800" utc_platform]
      export_nothing_to_export [of "((fresh_world 1704196800)
            \<lparr>dailyLogs := [\<lparr>log_ts = 1704153599, log_type = ''HOURLY'', log_text = ''late''\<rparr>,
                           \<lparr>log_ts = 1704153601, log_type = ''DAILY_STATUS'', log_text = ''ok''\<rparr>]\<rparr>)" utc_platform] h1 h2 f
    by (simp add: list_all_iff)
qed

text \<open>
  Claim C10. On a non-empty event log all of whose events are strictly older than
  now - 7*24h, and when the export file can be opened, the weekly export returns the
  non-empty path of the file it writes, and the file holds the header, the JSONL
  delimiter line and the end delimiter line, with no event line and no JSON object
  between them.
\<close>

theorem weekly_export_without_recent_events:
  assumes "dailyLogs w \<noteq> []"
    and "\<forall>d\<in>set (dailyLogs w). log_ts d < clock w (ticks w) - 7 * 24 * 60 * 60"
    and "can_open P (path_in_data P (''weekly_logs_export_''
            @ strftime_compact (localtime_r P (clock w (Suc (ticks w)))) @ ''.txt''))"
  shows "fst (export_weekly_logs_file P w)
           = path_in_data P (''weekly_logs_export_''
               @ strftime_compact (localtime_r P (clock w (Suc (ticks w)))) @ ''.txt'')
         \<and> fst (export_weekly_logs_file P w) \<noteq> []
         \<and> files (snd (export_weekly_logs_file P w)) (fst (export_weekly_logs_file P w))
             = Some (weekly_header P (clock w (ticks w)) @ jsonl_delimiter @ end_delimiter
                     @ [CHR 0x0A])"
proof -
  let ?now = "clock w (ticks w)"
  let ?w1 = "w\<lparr>ticks := Suc (ticks w)\<rparr>"
  let ?path = "path_in_data P (''weekly_logs_export_''
            @ strftime_compact (localtime_r P (clock w (Suc (ticks w)))) @ ''.txt'')"
  let ?content = "weekly_header P ?now @ jsonl_delimiter @ end_delimiter"
  have loop: "weekly_loop P (?now - week_seconds) (dailyLogs w) (weekly_header P ?now, []) ?w1
                = ((weekly_header P ?now, []), ?w1)"
    using assms(2) by (intro weekly_loop_skip) (simp add: week_seconds_def)
  have "export_weekly_logs_file P w
          = export_text_to_file P ''weekly_logs_export'' (c_str ?content) ?w1"
    using assms(1) loop by (simp add: export_weekly_logs_file_def time_now_def)
  also have "c_str ?content = ?content"
    by (rule c_str_no_nul) (rule weekly_frame_no_nul)
  also have "export_text_to_file P ''weekly_logs_export'' ?content ?w1
          = (?path, ?w1\<lparr>ticks := Suc (ticks ?w1),
                files := (files ?w1)(?path \<mapsto> ?content @ [CHR 0x0A])\<rparr>)"
    using assms(3) export_text_to_file_ok [of P "''weekly_logs_export''" ?w1 ?content] by simp
  finally have r: "export_weekly_logs_file P w
          = (?path, ?w1\<lparr>ticks := Suc (ticks ?w1),
                files := (files ?w1)(?path \<mapsto> ?content @ [CHR 0x0A])\<rparr>)" .
  have "?path \<noteq> []" by (rule path_in_data_nonempty) simp
  then show ?thesis by (simp add: r)
qed

theorem weekly_export_without_recent_events_witness:
  "dailyLogs ((fresh_world 1704196800)
            \<lparr>dailyLogs := [\<lparr>log_ts = 1703591999, log_type = ''HOURLY'', log_text = ''old''\<rparr>]\<rparr>) \<noteq> []
   \<and> list_all (\<lambda>d. log_ts d < clock ((fresh_world 1704196800)
            \<lparr>dailyLogs := [\<lparr>log_ts = 1703591999, log_type = ''HOURLY'', log_text = ''old''\<rparr>]\<rparr>) (ticks ((fresh_world 1704196800)
            \<lparr>dailyLogs := [\<lparr>log_ts = 1703591999, log_type = ''HOURLY'', log_text = ''old''\<rparr>]\<rparr>)) - 7 * 24 * 60 * 60) (dailyLogs ((fresh_world 1704196800)
            \<lparr>dailyLogs := [\<lparr>log_ts = 1703591999, log_type = ''HOURLY'', log_text = ''old''\<rparr>]\<rparr>))
   \<and> can_open utc_platform (path_in_data utc_platform (''weekly_logs_export_''
            @ strftime_compact (localtime_r utc_platform (clock ((fresh_world 1704196800)
            \<lparr>dailyLogs := [\<lparr>log_ts = 1703591999, log_type = ''HOURLY'', log_text = ''old''\<rparr>]\<rparr>) (Suc (ticks ((fresh_world 1704196800)
            \<lparr>dailyLogs := [\<lparr>log_ts = 1703591999, log_type = ''HOURLY'', log_text = ''old''\<rparr>]\<rparr>))))) @ ''.txt''))
   \<and> fst (export_weekly_logs_file utc_platform ((fresh_world 1704196800)
            \<lparr>dailyLogs := [\<lparr>log_ts = 1703591999, log_type = ''HOURLY'', log_text = ''old''\<rparr>]\<rparr>))
       = ''/home/u/.productivity_tracker/weekly_logs_export_20240102_120001.txt''
   \<and> files (snd (export_weekly_logs_file utc_platform ((fresh_world 1704196800)
            \<lparr>dailyLogs := [\<lparr>log_ts = 1703591999, log_type = ''HOURLY'', log_text = ''old''\<rparr>]\<rparr>)))
        ''/home/u/.productivity_tracker/weekly_logs_export_20240102_120001.txt''
       = Some (''WEEKLY LOG EXPORT'' @ [CHR 0x0A] @ ''Generated: 2024-01-02 12:00:00'' @ [CHR 0x0A]
               @ ''Range: last 7 days'' @ [CHR 0x0A, CHR 0x0A, CHR 0x0A]
               @ ''=== HOURLY_ENTRIES_JSONL (one JSON object per line) ==='' @ [CHR 0x0A, CHR 0x0A]
               @ ''=== END OF EXPORT ==='' @ [CHR 0x0A, CHR 0x0A])"
proof -
  have h1: "dailyLogs ((fresh_world 1704196800)
            \<lparr>dailyLogs := [\<lparr>log_ts = 1703591999, log_type = ''HOURLY'', log_text = ''old''\<rparr>]\<rparr>) \<noteq> []"
    by (simp add: fresh_world_def)
  have h2: "\<forall>d\<in>set (dailyLogs ((fresh_world 1704196800)
            \<lparr>dailyLogs := [\<lparr>log_ts = 1703591999, log_type = ''HOURLY'', log_text = ''old''\<rparr>]\<rparr>)). log_ts d < clock ((fresh_world 1704196800)
            \<lparr>dailyLogs := [\<lparr>log_ts = 1703591999, log_type = ''HOURLY'', log_text = ''old''\<rparr>]\<rparr>) (ticks ((fresh_world 1704196800)
            \<lparr>dailyLogs := [\<lparr>log_ts = 1703591999, log_type = ''HOURLY'', log_text = ''old''\<rparr>]\<rparr>)) - 7 * 24 * 60 * 60"
    by (simp add: fresh_world_def)
  have h3: "can_open utc_platform (path_in_data utc_platform (''weekly_logs_export_''
            @ strftime_compact (localtime_r utc_platform (clock ((fresh_world 1704196800)
            \<lparr>dailyLogs := [\<lparr>log_ts = 1703591999, log_type = ''HOURLY'', log_text = ''old''\<rparr>]\<rparr>) (Suc (ticks ((fresh_world 1704196800)
            \<lparr>dailyLogs := [\<lparr>log_ts = 1703591999, log_type = ''HOURLY'', log_text = ''old''\<rparr>]\<rparr>))))) @ ''.txt''))"
    by (simp add: utc_platform_def)
  show ?thesis
    using weekly_export_without_recent_events [OF h1 h2 h3]
    by (clarsimp simp add: fresh_world_def utc_platform_def utc_tm_examples
        strftime_examples strftime_examples2 path_in_data_def user_data_dir_def
        ensure_dir_exists_def DATA_DIR_NAME_def
        format_time_local_def weekly_header_def jsonl_delimiter_def
        end_delimiter_def Let_def)
qed

text \<open>
  Claim C5. On a non-empty event log, with the clock later than the first week after
  the epoch, the weekly export writes exactly the events with
  timestamp \<ge> now - 7*24*60*60, in store order: an event stamped exactly
  now - 7*24h is among them, an event one second older is not.
\<close>

theorem weekly_export_seven_day_filter:
  assumes "dailyLogs w \<noteq> []" and "7 * 24 * 60 * 60 < clock w (ticks w)"
  shows "export_weekly_logs_file P w =
           export_text_to_file P ''weekly_logs_export''
             (c_str (weekly_header P (clock w (ticks w))
                @ concat (map (event_line P)
                    (filter (\<lambda>d. clock w (ticks w) - 7 * 24 * 60 * 60 \<le> log_ts d) (dailyLogs w)))
                @ jsonl_delimiter
                @ concat (map (hourly_json P)
                    (filter (\<lambda>d. log_type d = ''HOURLY'')
                      (filter (\<lambda>d. clock w (ticks w) - 7 * 24 * 60 * 60 \<le> log_ts d) (dailyLogs w))))
                @ end_delimiter))
             (w\<lparr>ticks := Suc (ticks w)\<rparr>)
         \<and> (\<forall>d\<in>set (dailyLogs w). log_ts d = clock w (ticks w) - 7 * 24 * 60 * 60 \<longrightarrow>
               d \<in> set (filter (\<lambda>d. clock w (ticks w) - 7 * 24 * 60 * 60 \<le> log_ts d) (dailyLogs w)))
         \<and> (\<forall>d. log_ts d = clock w (ticks w) - 7 * 24 * 60 * 60 - 1 \<longrightarrow>
               d \<notin> set (filter (\<lambda>d. clock w (ticks w) - 7 * 24 * 60 * 60 \<le> log_ts d) (dailyLogs w)))"
proof (intro conjI)
  let ?now = "clock w (ticks w)"
  let ?w1 = "w\<lparr>ticks := Suc (ticks w)\<rparr>"
  have "weekly_loop P (?now - week_seconds) (dailyLogs w) (weekly_header P ?now, []) ?w1
      = ((weekly_header P ?now
            @ concat (map (event_line P) (filter (\<lambda>d. ?now - week_seconds \<le> log_ts d) (dailyLogs w))),
          [] @ concat (map (hourly_json P) (filter (\<lambda>d. log_type d = ''HOURLY'')
                (filter (\<lambda>d. ?now - week_seconds \<le> log_ts d) (dailyLogs w))))), ?w1)"
    using assms(2) by (intro weekly_loop_filter) (simp add: week_seconds_def)
  then show "export_weekly_logs_file P w =
           export_text_to_file P ''weekly_logs_export''
             (c_str (weekly_header P ?now
                @ concat (map (event_line P)
                    (filter (\<lambda>d. ?now - 7 * 24 * 60 * 60 \<le> log_ts d) (dailyLogs w)))
                @ jsonl_delimiter
                @ concat (map (hourly_json P)
                    (filter (\<lambda>d. log_type d = ''HOURLY'')
                      (filter (\<lambda>d. ?now - 7 * 24 * 60 * 60 \<le> log_ts d) (dailyLogs w))))
                @ end_delimiter)) ?w1"
    using assms(1) by (simp add: export_weekly_logs_file_def time_now_def week_seconds_def)
qed simp_all

theorem weekly_export_seven_day_filter_witness:
  "dailyLogs ((fresh_world 1704196800)
            \<lparr>dailyLogs := [\<lparr>log_ts = 1703591999, log_type = ''HOURLY'', log_text = ''old''\<rparr>,
                           \<lparr>log_ts = 1703592000, log_type = ''HOURLY'', log_text = ''edge''\<rparr>]\<rparr>) \<noteq> []
   \<and> 7 * 24 * 60 * 60 < clock (fresh_world 1704196800) (ticks (fresh_world 1704196800))
   \<and> fst (export_weekly_logs_file utc_platform ((fresh_world 1704196800)
            \<lparr>dailyLogs := [\<lparr>log_ts = 1703591999, log_type = ''HOURLY'', log_text = ''old''\<rparr>,
                           \<lparr>log_ts = 1703592000, log_type = ''HOURLY'', log_text = ''edge''\<rparr>]\<rparr>))
       = ''/home/u/.productivity_tracker/weekly_logs_export_20240102_120001.txt''
   \<and> files (snd (export_weekly_logs_file utc_platform ((fresh_world 1704196800)
            \<lparr>dailyLogs := [\<lparr>log_ts = 1703591999, log_type = ''HOURLY'', log_text = ''old''\<rparr>,
                           \<lparr>log_ts = 1703592000, log_type = ''HOURLY'', log_text = ''edge''\<rparr>]\<rparr>)))
        ''/home/u/.productivity_tracker/weekly_logs_export_20240102_120001.txt''
       = Some (''WEEKLY LOG EXPORT'' @ [CHR 0x0A] @ ''Generated: 2024-01-02 12:00:00'' @ [CHR 0x0A]
               @ ''Range: last 7 days'' @ [CHR 0x0A, CHR 0x0A]
               @ ''2023-12-26 12:00:00 - HOURLY - edge'' @ [CHR 0x0A, CHR 0x0A]
               @ ''=== HOURLY_ENTRIES_JSONL (one JSON object per line) ==='' @ [CHR 0x0A]
               @ ''{'' @ [CHR 0x22] @ ''type'' @ [CHR 0x22] @ '':'' @ [CHR 0x22] @ ''HOURLY''
               @ [CHR 0x22] @ '','' @ [CHR 0x22] @ ''timestamp'' @ [CHR 0x22] @ '':'' @ [CHR 0x22]
               @ ''2023-12-26T12:00:00Z'' @ [CHR 0x22] @ '','' @ [CHR 0x22] @ ''text'' @ [CHR 0x22]
               @ '':'' @ [CHR 0x22] @ ''edge'' @ [CHR 0x22] @ ''}'' @ [CHR 0x0A, CHR 0x0A]
               @ ''=== END OF EXPORT ==='' @ [CHR 0x0A, CHR 0x0A])"
proof -
  have h1: "dailyLogs ((fresh_world 1704196800)
            \<lparr>dailyLogs := [\<lparr>log_ts = 1703591999, log_type = ''HOURLY'', log_text = ''old''\<rparr>,
                           \<lparr>log_ts = 1703592000, log_type = ''HOURLY'', log_text = ''edge''\<rparr>]\<rparr>) \<noteq> []"
    by (simp add: fresh_world_def)
  have h2: "7 * 24 * 60 * 60 < clock ((fresh_world 1704196800)
            \<lparr>dailyLogs := [\<lparr>log_ts = 1703591999, log_type = ''HOURLY'', log_text = ''old''\<rparr>,
                           \<lparr>log_ts = 1703592000, log_type = ''HOURLY'', log_text = ''edge''\<rparr>]\<rparr>)
         (ticks ((fresh_world 1704196800)
            \<lparr>dailyLogs := [\<lparr>log_ts = 1703591999, log_type = ''HOURLY'', log_text = ''old''\<rparr>,
                           \<lparr>log_ts = 1703592000, log_type = ''HOURLY'', log_text = ''edge''\<rparr>]\<rparr>))"
    by (simp add: fresh_world_def)
  show ?thesis
    using weekly_export_seven_day_filter [OF h1 h2, of utc_platform]
    by (simp add: fresh_world_def utc_platform_def utc_tm_examples utc_tm_examples2
        strftime_examples strftime_examples2
        export_text_to_file_def time_now_def path_in_data_def user_data_dir_def
        ensure_dir_exists_def DATA_DIR_NAME_def c_str_def event_line_def hourly_json_def
        format_time_local_def format_iso_time_def weekly_header_def jsonl_delimiter_def
        end_delimiter_def escape_char_def Let_def)
qed

text \<open>
  Claim C6. When the local calendar day of the clock reading is not that of the epoch,
  the hourly export writes exactly the \<^verbatim>\<open>HOURLY\<close> events whose local year, month and day
  of month equal those of the clock reading, in store order, and no file when there is
  none. With events at
  2024-01-01 23:59:59 and 2024-01-02 00:00:01 and the clock at 2024-01-02 12:00:00 (the
  example below, on the UTC platform), the file holds the second event only.
\<close>

theorem hourly_export_same_calendar_day:
  assumes "\<not> is_same_local_day P (clock w (ticks w)) 0"
  shows "export_hourly_logs_today P w =
     (let now = clock w (ticks w);
          today = filter (\<lambda>d. log_type d = ''HOURLY''
                     \<and> tm_year (localtime_r P now) = tm_year (localtime_r P (log_ts d))
                     \<and> tm_mon (localtime_r P now) = tm_mon (localtime_r P (log_ts d))
                     \<and> tm_mday (localtime_r P now) = tm_mday (localtime_r P (log_ts d)))
                    (dailyLogs w)
      in if dailyLogs w = [] then ([], w)
         else if today = [] then ([], w\<lparr>ticks := Suc (ticks w)\<rparr>)
         else export_text_to_file P ''hourly_logs_today''
                (c_str (concat (map (event_line P) today))) (w\<lparr>ticks := Suc (ticks w)\<rparr>))"
proof (cases "dailyLogs w = []")
  case True
  then show ?thesis by (simp add: export_hourly_logs_today_def)
next
  case False
  let ?now = "clock w (ticks w)"
  let ?w1 = "w\<lparr>ticks := Suc (ticks w)\<rparr>"
  let ?today = "filter (\<lambda>d. log_type d = ''HOURLY'' \<and> is_same_local_day P ?now (log_ts d)) (dailyLogs w)"
  have loop: "hourly_loop P ?now (dailyLogs w) [] ?w1 = ([] @ concat (map (event_line P) ?today), ?w1)"
    using assms by (rule hourly_loop_filter)
  have empty: "(concat (map (event_line P) ?today) = []) = (?today = [])"
    by (cases ?today) (simp_all add: event_line_def)
  show ?thesis
    using False loop empty
    by (simp add: export_hourly_logs_today_def time_now_def is_same_local_day_def Let_def)
qed

theorem hourly_export_same_calendar_day_witness:
  "\<not> is_same_local_day utc_platform
        (clock (fresh_world 1704196800) (ticks (fresh_world 1704196800))) 0
   \<and> fst (export_hourly_logs_today utc_platform
          ((fresh_world 1704196800)
            \<lparr>dailyLogs := [\<lparr>log_ts = 1704153599, log_type = ''HOURLY'', log_text = ''late''\<rparr>,
                           \<lparr>log_ts = 1704153601, log_type = ''HOURLY'', log_text = ''early''\<rparr>]\<rparr>))
     = ''/home/u/.productivity_tracker/hourly_logs_today_20240102_120001.txt''
   \<and> files (snd (export_hourly_logs_today utc_platform
          ((fresh_world 1704196800)
            \<lparr>dailyLogs := [\<lparr>log_ts = 1704153599, log_type = ''HOURLY'', log_text = ''late''\<rparr>,
                           \<lparr>log_ts = 1704153601, log_type = ''HOURLY'', log_text = ''early''\<rparr>]\<rparr>)))
       ''/home/u/.productivity_tracker/hourly_logs_today_20240102_120001.txt''
     = Some (''2024-01-02 00:00:01 - HOURLY - early'' @ [CHR 0x0A, CHR 0x0A])"
  using hourly_export_same_calendar_day [of utc_platform "(fresh_world 1704196800)
            \<lparr>dailyLogs := [\<lparr>log_ts = 1704153599, log_type = ''HOURLY'', log_text = ''late''\<rparr>,
                           \<lparr>log_ts = 1704153601, log_type = ''HOURLY'', log_text = ''early''\<rparr>]\<rparr>"]
  by (simp add: fresh_world_def utc_platform_def utc_tm_examples strftime_examples
        export_text_to_file_def time_now_def path_in_data_def user_data_dir_def
        ensure_dir_exists_def DATA_DIR_NAME_def c_str_def event_line_def format_time_local_def
        is_same_local_day_def Let_def)


subsection \<open>Task store round trip\<close>

lemma show_nat_isdigit: "c \<in> set (show_nat n) \<Longrightarrow> isdigit c"
  using show_nat_digits [of c n] by (simp add: isdigit_def)

lemma show_nat_nonempty: "show_nat n \<noteq> []"
  by (subst show_nat.simps) simp

lemma dec_value_snoc: "dec_value (ds @ [c]) = dec_value ds * 10 + (int (of_char c) - 48)"
  by (simp add: dec_value_def)

lemma dec_value_show_nat: "dec_value (show_nat n) = int n"
proof (induction n rule: show_nat.induct)
  case (1 n)
  show ?case
  proof (cases "n < 10")
    case True
    then show ?thesis
      by (simp add: show_nat.simps [of n] dec_value_def digit_char_code)
  next
    case False
    then have "dec_value (show_nat n) = dec_value (show_nat (n div 10)) * 10
                 + (int (of_char (digit_char (n mod 10))) - 48)"
      by (simp add: show_nat.simps [of n] dec_value_snoc)
    also have "\<dots> = int (n div 10) * 10 + int (n mod 10)"
      using "1.IH" [OF False] by (simp add: digit_char_code)
    also have "\<dots> = int n" by presburger
    finally show ?thesis .
  qed
qed

lemma isdigit_not_special:
  "isdigit c \<Longrightarrow> \<not> isspace c \<and> c \<noteq> CHR ''-'' \<and> c \<noteq> CHR ''+'' \<and> c \<noteq> CHR ''(''
     \<and> c \<noteq> CHR '')'' \<and> c \<noteq> CHR '':'' \<and> c \<noteq> CHR 0x0A \<and> c \<noteq> CHR '' ''"
  by (auto simp add: isdigit_def isspace_def)

lemma takeWhile_all: "\<forall>c\<in>set ds. P c \<Longrightarrow> takeWhile P ds = ds"
  by simp

lemma stoi_show_nat:
  assumes "int n \<le> 2147483647"
  shows "stoi (show_nat n) = Some (int n)"
proof -
  obtain c cs where cs: "show_nat n = c # cs"
    using show_nat_nonempty [of n] by (cases "show_nat n") auto
  have dig: "\<forall>x\<in>set (show_nat n). isdigit x"
    by (simp add: show_nat_isdigit)
  with cs have c: "isdigit c" by simp
  have tw: "takeWhile isdigit (show_nat n) = show_nat n"
    using dig by simp
  have dw: "dropWhile isspace (show_nat n) = show_nat n"
    using c cs isdigit_not_special [of c] by simp
  have hd: "hd (show_nat n) \<noteq> CHR ''-''" "hd (show_nat n) \<noteq> CHR ''+''"
    using c cs isdigit_not_special [of c] by simp_all
  show ?thesis
    using assms hd show_nat_nonempty [of n]
    by (simp add: stoi_def dw tw Let_def dec_value_show_nat)
qed

lemma stoi_show_int:
  assumes "- 2147483648 \<le> i" "i \<le> 2147483647"
  shows "stoi (show_int i) = Some i"
proof (cases "i < 0")
  case False
  with assms show ?thesis
    using stoi_show_nat [of "nat i"] by (simp add: show_int_def)
next
  case True
  have dig: "\<forall>x\<in>set (show_nat (nat (- i))). isdigit x"
    by (simp add: show_nat_isdigit)
  then have tw: "takeWhile isdigit (show_nat (nat (- i))) = show_nat (nat (- i))"
    by simp
  show ?thesis
    using True assms show_nat_nonempty [of "nat (- i)"]
    by (simp add: show_int_def stoi_def isspace_def tw Let_def dec_value_show_nat)
qed

lemma stoi_parent: "stoi (show_int (sint (p :: 32 word))) = Some (sint p)"
proof -
  have "- 2147483648 \<le> sint p" "sint p \<le> 2147483647"
    using sint_range_size [of p] by (simp_all add: word_size)
  then show ?thesis by (rule stoi_show_int)
qed

lemma show_int_chars: "c \<in> set (show_int i) \<Longrightarrow> isdigit c \<or> c = CHR ''-''"
  by (auto simp add: show_int_def show_nat_isdigit split: if_splits)


lemma find_char_first: "ch \<notin> set a \<Longrightarrow> find_char ch (a @ ch # b) = Some (length a)"
  by (induction a) auto

lemma find_char_absent: "ch \<notin> set s \<Longrightarrow> find_char ch s = None"
  by (induction s) auto

lemma rfind_str_absent: "h \<notin> set s \<Longrightarrow> rfind_str (h # p) s = None"
  by (induction s) auto

lemma rfind_str_prepend:
  "rfind_str pat s = Some i \<Longrightarrow> rfind_str pat (a @ s) = Some (length a + i)"
  by (induction a) auto

lemma starts_with_self: "starts_with p (p @ b)"
  by (induction p) auto

lemma rfind_str_last:
  assumes "h \<notin> set (p @ b)"
  shows "rfind_str (h # p) (a @ (h # p) @ b) = Some (length a)"
proof -
  have "rfind_str (h # p) (p @ b) = None"
    using assms by (rule rfind_str_absent)
  then have "rfind_str (h # p) ((h # p) @ b) = Some 0"
    using starts_with_self [of "p" b] by simp
  then show ?thesis
    using rfind_str_prepend [of "h # p" "(h # p) @ b" 0 a] by simp
qed

lemma strip_trailing_space_blank:
  "s = [] \<or> \<not> isspace (last s) \<Longrightarrow> strip_trailing_space (s @ '' '') = s"
proof (cases "s = []")
  case True
  then show ?thesis by (simp add: strip_trailing_space_def isspace_def)
next
  case False
  assume "s = [] \<or> \<not> isspace (last s)"
  with False have "\<not> isspace (hd (rev s))" by (simp add: hd_rev)
  moreover from False have "rev s \<noteq> []" by simp
  ultimately have "dropWhile isspace (rev s) = rev s"
    by (cases "rev s") auto
  then show ?thesis by (simp add: strip_trailing_space_def isspace_def)
qed

lemma getlines_line:
  "CHR 0x0A \<notin> set l \<Longrightarrow> getlines cur (l @ CHR 0x0A # rest) = (cur @ l) # getlines [] rest"
  by (induction l arbitrary: cur) auto

lemma skip_blanks_blank:
  "c \<noteq> CHR 0x20 \<Longrightarrow> c \<noteq> CHR 0x09 \<Longrightarrow> skip_blanks (CHR 0x20 # c # s) = c # s"
  by (simp add: skip_blanks_def)

lemma parse_parent_suffix_root:
  assumes "case rfind_str ''(parent='' name of None \<Rightarrow> True
           | Some ppos \<Rightarrow> find_char_from CHR '')'' name ppos = None"
  shows "parse_parent_suffix name = (- 1, name)"
proof (cases "rfind_str ''(parent='' name")
  case None
  then show ?thesis by (simp add: parse_parent_suffix_def)
next
  case (Some ppos)
  with assms have "find_char_from CHR '')'' name ppos = None" by simp
  with Some show ?thesis by (simp add: parse_parent_suffix_def)
qed

lemma parse_parent_suffix_child:
  fixes p :: "32 word"
  assumes "name = [] \<or> \<not> isspace (last name)"
  shows "parse_parent_suffix (name @ '' (parent='' @ show_int (sint p) @ '')'') = (p, name)"
proof -
  let ?num = "show_int (sint p)"
  define rest2 where "rest2 = name @ '' (parent='' @ ?num @ '')''"
  have num: "\<forall>c\<in>set ?num. c \<noteq> CHR ''('' \<and> c \<noteq> CHR '')''"
    using show_int_chars [of _ "sint p"] isdigit_not_special by auto
  have split: "rest2 = (name @ '' '') @ (CHR ''('' # ''parent='') @ (?num @ '')'')"
    by (simp add: rest2_def)
  have "CHR ''('' \<notin> set (''parent='' @ (?num @ '')''))"
    using num by auto
  then have "rfind_str (CHR ''('' # ''parent='') ((name @ '' '') @ (CHR ''('' # ''parent='') @ (?num @ '')''))
               = Some (length (name @ '' ''))"
    by (rule rfind_str_last)
  then have r: "rfind_str ''(parent='' rest2 = Some (length name + 1)"
    unfolding split by simp
  have d: "drop (length name + 1) rest2 = (''(parent='' @ ?num) @ CHR '')'' # []"
    by (simp add: rest2_def)
  have "CHR '')'' \<notin> set (''(parent='' @ ?num)"
    using num by auto
  then have "find_char CHR '')'' ((''(parent='' @ ?num) @ CHR '')'' # []) = Some (length (''(parent='' @ ?num))"
    by (rule find_char_first)
  then have f: "find_char_from CHR '')'' rest2 (length name + 1) = Some (length name + 1 + 8 + length ?num)"
    unfolding find_char_from_def d by (simp add: rest2_def)
  have n: "take (length name + 1 + 8 + length ?num - (length name + 1 + 8))
             (drop (length name + 1 + 8) rest2) = ?num"
    by (simp add: rest2_def)
  have t: "take (length name + 1) rest2 = name @ '' ''"
    by (simp add: rest2_def)
  have "parse_parent_suffix rest2 = (p, name)"
    unfolding parse_parent_suffix_def
    by (simp only: r f option.case Let_def n t stoi_parent
          strip_trailing_space_blank [OF assms(1)]) simp
  then show ?thesis by (simp only: rest2_def)
qed

lemma parse_done_marker_bracket:
  assumes "mark = CHR ''x'' \<or> mark = CHR '' ''" "c \<noteq> CHR 0x20" "c \<noteq> CHR 0x09"
  shows "parse_done_marker (CHR ''['' # mark # CHR '']'' # CHR '' '' # c # s)
           = (mark = CHR ''x'', c # s)"
  using assms by (auto simp add: parse_done_marker_def skip_blanks_def)

lemma parse_task_line_task_line:
  assumes "storable_task t"
  shows "parse_task_line (butlast (task_line i t)) = t"
proof -
  obtain c cs where name: "t_name t = c # cs"
    using assms by (cases "t_name t") (auto simp add: storable_task_def)
  from assms name have c: "c \<noteq> CHR 0x20" "c \<noteq> CHR 0x09"
    by (simp_all add: storable_task_def)
  define mark where "mark = (if t_done t then CHR ''x'' else CHR '' '')"
  define suffix where "suffix =
     (if t_parent t \<noteq> - 1 then '' (parent='' @ show_int (sint (t_parent t)) @ '')'' else [])"
  have line: "butlast (task_line i t)
      = show_nat i @ CHR '':'' # (CHR '' '' # CHR ''['' # mark # CHR '']'' # CHR '' '' # c # cs @ suffix)"
    by (simp add: task_line_def mark_def suffix_def name butlast_append)
  have "CHR '':'' \<notin> set (show_nat i)"
    using show_nat_isdigit [of "CHR '':''" i] isdigit_not_special [of "CHR '':''"] by auto
  then have colon: "find_char CHR '':'' (butlast (task_line i t)) = Some (length (show_nat i))"
    unfolding line by (rule find_char_first)
  have rest0: "drop (length (show_nat i) + 1) (butlast (task_line i t))
      = CHR '' '' # CHR ''['' # mark # CHR '']'' # CHR '' '' # c # cs @ suffix"
    unfolding line by simp
  have rest1: "skip_blanks (CHR '' '' # CHR ''['' # mark # CHR '']'' # CHR '' '' # c # cs @ suffix)
      = CHR ''['' # mark # CHR '']'' # CHR '' '' # c # cs @ suffix"
    by (simp add: skip_blanks_def)
  have rest2: "parse_done_marker (CHR ''['' # mark # CHR '']'' # CHR '' '' # c # cs @ suffix)
      = (t_done t, t_name t @ suffix)"
    using c parse_done_marker_bracket [of mark c "cs @ suffix"] by (simp add: mark_def name)
  have tail: "parse_parent_suffix (t_name t @ suffix) = (t_parent t, t_name t)"
  proof (cases "t_parent t = - 1")
    case True
    then have s: "suffix = []" by (simp add: suffix_def)
    from True assms have "case rfind_str ''(parent='' (t_name t) of None \<Rightarrow> True
           | Some ppos \<Rightarrow> find_char_from CHR '')'' (t_name t) ppos = None"
      by (simp add: storable_task_def)
    then show ?thesis
      unfolding s append_Nil2 True by (rule parse_parent_suffix_root)
  next
    case False
    then have s: "suffix = '' (parent='' @ show_int (sint (t_parent t)) @ '')''"
      by (simp add: suffix_def)
    from False assms have "t_name t = [] \<or> \<not> isspace (last (t_name t))"
      by (simp add: storable_task_def)
    then show ?thesis
      unfolding s by (rule parse_parent_suffix_child)
  qed
  show ?thesis
    unfolding parse_task_line_def colon option.case rest0 rest1 Let_def rest2
    by (simp add: tail)
qed

lemma task_line_no_newline: 
  assumes "storable_task t"
  shows "CHR 0x0A \<notin> set (butlast (task_line i t))" and "butlast (task_line i t) \<noteq> []"
    and "task_line i t = butlast (task_line i t) @ [CHR 0x0A]"
proof -
  have d: "CHR 0x0A \<notin> set (show_nat i)"
    using show_nat_isdigit [of "CHR 0x0A" i] isdigit_not_special [of "CHR 0x0A"] by auto
  have p: "CHR 0x0A \<notin> set (show_int (sint (t_parent t)))"
    using show_int_chars [of "CHR 0x0A" "sint (t_parent t)"] isdigit_not_special [of "CHR 0x0A"]
    by auto
  from assms have n: "CHR 0x0A \<notin> set (t_name t)" by (simp add: storable_task_def)
  show "task_line i t = butlast (task_line i t) @ [CHR 0x0A]"
    by (simp add: task_line_def butlast_append)
  show "CHR 0x0A \<notin> set (butlast (task_line i t))"
    using d p n by (simp add: task_line_def butlast_append)
  show "butlast (task_line i t) \<noteq> []"
    using show_nat_nonempty [of i] by (simp add: task_line_def butlast_append)
qed

lemma load_tasks_loop_append:
  "load_tasks_loop (xs @ ys) acc = load_tasks_loop ys (load_tasks_loop xs acc)"
  by (induction xs arbitrary: acc) simp_all

lemma load_save_tasks_loop:
  "\<forall>t\<in>set ts. storable_task t \<Longrightarrow>
     load_tasks_loop (getlines [] (save_tasks_loop i ts)) acc = acc @ ts"
proof (induction ts arbitrary: i acc)
  case Nil
  show ?case by simp
next
  case (Cons t ts)
  then have t: "storable_task t" and rest: "\<forall>t\<in>set ts. storable_task t" by simp_all
  note l = task_line_no_newline [OF t, of i]
  have "save_tasks_loop i (t # ts)
      = (butlast (task_line i t) @ [CHR 0x0A]) @ save_tasks_loop (Suc i) ts"
    by (simp only: save_tasks_loop.simps l(3) [symmetric])
  then have "getlines [] (save_tasks_loop i (t # ts))
      = getlines [] (butlast (task_line i t) @ CHR 0x0A # save_tasks_loop (Suc i) ts)"
    by (simp only: append_assoc append.simps)
  also have "\<dots> = butlast (task_line i t) # getlines [] (save_tasks_loop (Suc i) ts)"
    using getlines_line [OF l(1), of "[]"] by simp
  finally show ?case
    using l(2) Cons.IH [OF rest] parse_task_line_task_line [OF t, of i] by simp
qed

lemma load_save_tasks_storable:
  assumes "can_open P (path_in_data P ''tasks.txt'')"
    and "\<forall>t\<in>set (tasks w). storable_task t"
  shows "tasks (load_tasks P (save_tasks P w)) = tasks w"
  using assms load_save_tasks_loop [of "tasks w" 0 "[]"]
  by (simp add: save_tasks_def load_tasks_def Let_def)

lemma save_tasks_tasks: "tasks (save_tasks P w) = tasks w"
  by (simp add: save_tasks_def Let_def)

lemma add_task_tasks:
  "tasks (add_task P name parent_idx w)
     = tasks w @ [\<lparr>t_name = name, t_parent = parent_idx, t_done = False\<rparr>]"
  by (simp add: add_task_def Let_def append_daily_log_fields save_tasks_tasks)

lemma toggle_task_tasks:
  "tasks (toggle_task P idx d w)
     = (if idx \<ge> length (tasks w) then tasks w
        else (tasks w)[idx := (tasks w ! idx)\<lparr>t_done := d\<rparr>])"
  by (simp add: toggle_task_def save_tasks_tasks)

lemma storable_task_done: "storable_task (t\<lparr>t_done := d\<rparr>) = storable_task t"
  by (simp add: storable_task_def cong: option.case_cong)

lemma load_save_tasks_unfold:
  "can_open P (path_in_data P ''tasks.txt'') \<Longrightarrow>
   tasks (load_tasks P (save_tasks P w))
     = load_tasks_loop (getlines [] (save_tasks_loop 0 (tasks w))) []"
  by (simp add: load_tasks_def save_tasks_def Let_def)

lemma apply_task_op_storable:
  assumes "\<forall>t\<in>set (tasks w). storable_task t" "storable_op x"
  shows "\<forall>t\<in>set (tasks (apply_task_op P x w)). storable_task t"
proof (cases x)
  case (Append name parent_idx)
  with assms show ?thesis by (simp add: add_task_tasks)
next
  case (Toggle idx d)
  show ?thesis
  proof (cases "idx \<ge> length (tasks w)")
    case True
    with assms Toggle show ?thesis by (simp add: toggle_task_tasks)
  next
    case False
    then have "storable_task ((tasks w ! idx)\<lparr>t_done := d\<rparr>)"
      using assms(1) by (simp add: storable_task_done)
    with assms(1) False Toggle show ?thesis
      using set_update_subset_insert [of "tasks w" idx "(tasks w ! idx)\<lparr>t_done := d\<rparr>"]
      by (auto simp add: toggle_task_tasks)
  qed
qed

lemma run_task_ops_storable:
  "\<forall>t\<in>set (tasks w). storable_task t \<Longrightarrow> list_all storable_op ops
     \<Longrightarrow> \<forall>t\<in>set (tasks (run_task_ops P ops w)). storable_task t"
proof (induction ops arbitrary: w)
  case Nil
  then show ?case by (simp add: run_task_ops_def)
next
  case (Cons x ops)
  then have "\<forall>t\<in>set (tasks (apply_task_op P x w)). storable_task t"
    by (intro apply_task_op_storable) simp_all
  with Cons.prems have "\<forall>t\<in>set (tasks (run_task_ops P ops (apply_task_op P x w))). storable_task t"
    by (intro Cons.IH) simp_all
  then show ?case by (simp add: run_task_ops_def)
qed

text \<open>
  Claim C2, as the code has it. Starting from an empty task store, after any sequence of
  Append and Toggle operations whose appended tasks are storable (see \<open>storable_task\<close>;
  the parent index may be any \<^verbatim>\<open>int\<close>), and when \<^verbatim>\<open>tasks.txt\<close> can be written, Save followed
  by Load reproduces the sequence of (name, parent, done) in memory before the save,
  in the same order.
\<close>

theorem task_ops_round_trip:
  assumes "can_open P (path_in_data P ''tasks.txt'')"
    and "tasks w = []"
    and "list_all storable_op ops"
  shows "tasks (load_tasks P (save_tasks P (run_task_ops P ops w))) = tasks (run_task_ops P ops w)"
proof -
  from assms(2) have "\<forall>t\<in>set (tasks w). storable_task t" by simp
  then have "\<forall>t\<in>set (tasks (run_task_ops P ops w)). storable_task t"
    using assms(3) by (rule run_task_ops_storable)
  with assms(1) show ?thesis by (rule load_save_tasks_storable)
qed

lemma storable_examples:
  "storable_task \<lparr>t_name = ''Write report'', t_parent = - 1, t_done = False\<rparr>"
  "storable_task \<lparr>t_name = ''Draft (v2)'', t_parent = 0, t_done = False\<rparr>"
  by code_simp+

theorem task_ops_round_trip_witness:
  "can_open utc_platform (path_in_data utc_platform ''tasks.txt'')
   \<and> tasks (fresh_world 1704196800) = []
   \<and> list_all storable_op [Append ''Write report'' (- 1), Append ''Draft (v2)'' 0, Toggle 1 True]
   \<and> tasks (run_task_ops utc_platform
        [Append ''Write report'' (- 1), Append ''Draft (v2)'' 0, Toggle 1 True] (fresh_world 1704196800))
      = [\<lparr>t_name = ''Write report'', t_parent = - 1, t_done = False\<rparr>,
         \<lparr>t_name = ''Draft (v2)'', t_parent = 0, t_done = True\<rparr>]
   \<and> tasks (load_tasks utc_platform (save_tasks utc_platform (run_task_ops utc_platform
        [Append ''Write report'' (- 1), Append ''Draft (v2)'' 0, Toggle 1 True] (fresh_world 1704196800))))
      = [\<lparr>t_name = ''Write report'', t_parent = - 1, t_done = False\<rparr>,
         \<lparr>t_name = ''Draft (v2)'', t_parent = 0, t_done = True\<rparr>]"
proof -
  have h1: "can_open utc_platform (path_in_data utc_platform ''tasks.txt'')"
    by (simp add: utc_platform_def)
  have h2: "tasks (fresh_world 1704196800) = []"
    by (simp add: fresh_world_def)
  have h3: "list_all storable_op [Append ''Write report'' (- 1), Append ''Draft (v2)'' 0, Toggle 1 True]"
    by (simp add: storable_examples)
  have r: "tasks (run_task_ops utc_platform
        [Append ''Write report'' (- 1), Append ''Draft (v2)'' 0, Toggle 1 True] (fresh_world 1704196800))
      = [\<lparr>t_name = ''Write report'', t_parent = - 1, t_done = False\<rparr>,
         \<lparr>t_name = ''Draft (v2)'', t_parent = 0, t_done = True\<rparr>]"
    by (simp add: run_task_ops_def add_task_tasks toggle_task_tasks fresh_world_def)
  show ?thesis
    using task_ops_round_trip [OF h1 h2 h3] h1 h2 h3 r by simp
qed

text \<open>
  For arbitrary names the round trip fails: a root task named \<^verbatim>\<open>Review (parent=7)\<close> is
  saved as \<^verbatim>\<open>0: [ ] Review (parent=7)\<close> and loaded as the task \<^verbatim>\<open>Review\<close> with parent 7.
\<close>

lemma load_save_example:
  "load_tasks_loop (getlines [] (save_tasks_loop 0
       [\<lparr>t_name = ''Review (parent=7)'', t_parent = - 1, t_done = False\<rparr>])) []
   = [\<lparr>t_name = ''Review'', t_parent = 7, t_done = False\<rparr>]"
  by code_simp

theorem task_ops_round_trip_counterexample:
  "tasks (run_task_ops utc_platform [Append ''Review (parent=7)'' (- 1)] (fresh_world 1704196800))
      = [\<lparr>t_name = ''Review (parent=7)'', t_parent = - 1, t_done = False\<rparr>]
   \<and> tasks (load_tasks utc_platform (save_tasks utc_platform
        (run_task_ops utc_platform [Append ''Review (parent=7)'' (- 1)] (fresh_world 1704196800))))
      = [\<lparr>t_name = ''Review'', t_parent = 7, t_done = False\<rparr>]
   \<and> tasks (load_tasks utc_platform (save_tasks utc_platform
        (run_task_ops utc_platform [Append ''Review (parent=7)'' (- 1)] (fresh_world 1704196800))))
      \<noteq> tasks (run_task_ops utc_platform [Append ''Review (parent=7)'' (- 1)] (fresh_world 1704196800))"
proof -
  let ?w = "run_task_ops utc_platform [Append ''Review (parent=7)'' (- 1)] (fresh_world 1704196800)"
  have o: "can_open utc_platform (path_in_data utc_platform ''tasks.txt'')"
    by (simp add: utc_platform_def)
  have r: "tasks ?w = [\<lparr>t_name = ''Review (parent=7)'', t_parent = - 1, t_done = False\<rparr>]"
    by (simp add: run_task_ops_def add_task_tasks fresh_world_def)
  have l: "tasks (load_tasks utc_platform (save_tasks utc_platform ?w))
      = [\<lparr>t_name = ''Review'', t_parent = 7, t_done = False\<rparr>]"
    unfolding load_save_tasks_unfold [OF o] r by (rule load_save_example)
  show ?thesis unfolding r l by simp
qed

subsection \<open>Event log round trip\<close>

lemma length_show_nat: "0 < k \<Longrightarrow> n < 10 ^ k \<Longrightarrow> length (show_nat n) \<le> k"
proof (induction n arbitrary: k rule: show_nat.induct)
  case (1 n)
  show ?case
  proof (cases "n < 10")
    case True
    with "1.prems" show ?thesis by (simp add: show_nat.simps [of n])
  next
    case False
    with "1.prems" obtain j where k: "k = Suc j" "0 < j"
      by (cases k; cases "k - 1") auto
    from "1.prems" k have "n div 10 < 10 ^ j"
      by (simp add: less_mult_imp_div_less mult.commute)
    with False k have "length (show_nat (n div 10)) \<le> j"
      by (intro "1.IH") simp_all
    with False k show ?thesis by (simp add: show_nat.simps [of n])
  qed
qed

lemma dec_value_zeros: "dec_value (replicate m CHR ''0'' @ ds) = dec_value ds"
proof -
  have "foldl (\<lambda>a c. a * 10 + (int (of_char c) - 48)) 0 (replicate m CHR ''0'') = 0"
    by (induction m) simp_all
  then show ?thesis by (simp add: dec_value_def)
qed

lemma pad0_digits:
  assumes "0 < k" "0 \<le> v" "v < 10 ^ k"
  shows "length (pad0 k v) = k" and "\<forall>c\<in>set (pad0 k v). isdigit c" and "dec_value (pad0 k v) = v"
proof -
  have s: "show_int v = show_nat (nat v)"
    using assms(2) by (simp add: show_int_def)
  have "nat v < 10 ^ k"
    using assms(2,3) by (simp add: nat_less_iff)
  with assms(1) have l: "length (show_nat (nat v)) \<le> k" by (rule length_show_nat)
  then show "length (pad0 k v) = k"
    by (simp add: pad0_def s Let_def)
  have "isdigit CHR ''0''" by (simp add: isdigit_def)
  then show "\<forall>c\<in>set (pad0 k v). isdigit c"
    by (auto simp add: pad0_def s Let_def show_nat_isdigit)
  show "dec_value (pad0 k v) = v"
    using assms(2) by (simp add: pad0_def s Let_def dec_value_zeros dec_value_show_nat)
qed

lemma scan_int_digits:
  assumes "0 < k" "length ds = k" "\<forall>c\<in>set ds. isdigit c"
  shows "scan_int k (ds @ rest) = Some (dec_value ds, rest)"
proof -
  from assms obtain c cs where ds: "ds = c # cs" by (cases ds) auto
  with assms have c: "isdigit c" by simp
  have dw: "dropWhile isspace (ds @ rest) = ds @ rest"
    using c isdigit_not_special [of c] by (simp add: ds)
  have hd: "hd (ds @ rest) \<noteq> CHR ''-''" "hd (ds @ rest) \<noteq> CHR ''+''"
    using c isdigit_not_special [of c] by (simp_all add: ds)
  have tw: "takeWhile isdigit (take k (ds @ rest)) = ds"
    using assms(2,3) by simp
  from ds have ne: "ds \<noteq> []" by simp
  show ?thesis
    unfolding scan_int_def dw Let_def tw using hd ne by simp
qed

lemma scan_int_pad0:
  assumes "0 < k" "0 \<le> v" "v < 10 ^ k"
  shows "scan_int k (pad0 k v @ rest) = Some (v, rest)"
  using scan_int_digits [of k "pad0 k v" rest] pad0_digits [OF assms] assms(1) by simp

lemma skip_space_pad0:
  assumes "0 < k" "0 \<le> v" "v < 10 ^ k"
  shows "dropWhile isspace (CHR '' '' # pad0 k v @ rest) = pad0 k v @ rest"
proof -
  from pad0_digits(1) [OF assms] assms(1) obtain c cs where ds: "pad0 k v = c # cs"
    by (cases "pad0 k v") auto
  with pad0_digits(2) [OF assms] have "isdigit c" by simp
  then show ?thesis
    using isdigit_not_special [of c] by (simp add: ds isspace_def)
qed

lemma sscanf_timestamp_strftime_local:
  assumes "tm_printable t"
  shows "sscanf_timestamp (strftime_local t)
           = Some (tm_year t + 1900, tm_mon t + 1, tm_mday t, tm_hour t, tm_min t, tm_sec t)"
proof -
  from assms have r:
    "0 \<le> tm_year t + 1900" "tm_year t + 1900 < 10 ^ 4"
    "0 \<le> tm_mon t + 1" "tm_mon t + 1 < 10 ^ 2"
    "0 \<le> tm_mday t" "tm_mday t < 10 ^ 2"
    "0 \<le> tm_hour t" "tm_hour t < 10 ^ 2"
    "0 \<le> tm_min t" "tm_min t < 10 ^ 2"
    "0 \<le> tm_sec t" "tm_sec t < 10 ^ 2"
    by (simp_all add: tm_printable_def)
  have last: "scan_int 2 (pad0 2 (tm_sec t)) = Some (tm_sec t, [])"
    using scan_int_pad0 [of 2 "tm_sec t" "[]"] r by simp
  show ?thesis
    unfolding sscanf_timestamp_def strftime_local_def
    using r last
    by (simp add: scan_int_pad0 scan_lit_def skip_space_pad0 del: power_numeral dropWhile.simps)
qed

lemma parse_timestamp_strftime_local:
  assumes "tm_printable (localtime_r P t)"
    and "mktime P ((localtime_r P t)\<lparr>tm_isdst := - 1\<rparr>) = t"
    and "t \<noteq> - 1"
  shows "parse_timestamp P (strftime_local (localtime_r P t)) w = (t, w)"
proof -
  have eq: "\<lparr>tm_sec = tm_sec (localtime_r P t), tm_min = tm_min (localtime_r P t),
         tm_hour = tm_hour (localtime_r P t), tm_mday = tm_mday (localtime_r P t),
         tm_mon = tm_mon (localtime_r P t), tm_year = tm_year (localtime_r P t),
         tm_isdst = - 1\<rparr> = (localtime_r P t)\<lparr>tm_isdst := - 1\<rparr>"
    by simp
  show ?thesis
    using assms(2,3)
    by (simp add: parse_timestamp_def sscanf_timestamp_strftime_local [OF assms(1)] eq)
qed


lemma find_str_skip:
  "h \<notin> set a \<Longrightarrow> find_str (h # ps) (a @ s) = map_option (\<lambda>i. length a + i) (find_str (h # ps) s)"
  by (induction a; cases "find_str (h # ps) s") auto

lemma find_str_self: "find_str pat (pat @ rest) = Some 0"
  using starts_with_self [of pat rest] by (cases "pat @ rest") auto

lemma starts_with_append:
  "length p \<le> length s \<Longrightarrow> starts_with p (s @ r) = starts_with p s"
  by (induction p s rule: starts_with.induct) auto

lemma find_str_extend:
  "find_str pat (a @ pat) = Some (length a) \<Longrightarrow> find_str pat (a @ pat @ rest) = Some (length a)"
proof (induction a)
  case Nil
  show ?case using find_str_self [of pat rest] by simp
next
  case (Cons x a)
  have "starts_with pat ((x # a @ pat) @ rest) = starts_with pat (x # a @ pat)"
    by (rule starts_with_append) simp
  with Cons show ?case by (auto split: if_splits)
qed

lemma pad0_no_blank:
  assumes "0 < k" "0 \<le> v" "v < 10 ^ k"
  shows "CHR '' '' \<notin> set (pad0 k v)"
  using pad0_digits(2) [OF assms] isdigit_not_special [of "CHR '' ''"] by auto

lemma length_strftime_local: "tm_printable t \<Longrightarrow> length (strftime_local t) = 19"
  by (simp add: strftime_local_def tm_printable_def pad0_digits(1))

lemma find_str_strftime_local:
  assumes "tm_printable t"
  shows "find_str '' - '' (strftime_local t @ '' - '' @ rest) = Some 19"
proof -
  from assms have r:
    "0 \<le> tm_year t + 1900" "tm_year t + 1900 < 10 ^ 4"
    "0 \<le> tm_mon t + 1" "tm_mon t + 1 < 10 ^ 2"
    "0 \<le> tm_mday t" "tm_mday t < 10 ^ 2"
    "0 \<le> tm_hour t" "tm_hour t < 10 ^ 2"
    "0 \<le> tm_min t" "tm_min t < 10 ^ 2"
    "0 \<le> tm_sec t" "tm_sec t < 10 ^ 2"
    by (simp_all add: tm_printable_def)
  define D1 where "D1 = pad0 4 (tm_year t + 1900) @ ''-'' @ pad0 2 (tm_mon t + 1) @ ''-''
                        @ pad0 2 (tm_mday t)"
  define D2 where "D2 = pad0 2 (tm_hour t) @ '':'' @ pad0 2 (tm_min t) @ '':'' @ pad0 2 (tm_sec t)"
  have ts: "strftime_local t = D1 @ CHR '' '' # D2"
    by (simp add: strftime_local_def D1_def D2_def)
  have b1: "CHR '' '' \<notin> set D1"
    using r by (simp add: D1_def pad0_no_blank del: power_numeral)
  have b2: "CHR '' '' \<notin> set D2"
    using r by (simp add: D2_def pad0_no_blank del: power_numeral)
  have l1: "length D1 = 10"
    using r by (simp add: D1_def pad0_digits(1) del: power_numeral)
  have l2: "length D2 = 8"
    using r by (simp add: D2_def pad0_digits(1) del: power_numeral)
  obtain c cs where h: "pad0 2 (tm_hour t) = c # cs"
    using pad0_digits(1) [of 2 "tm_hour t"] r by (cases "pad0 2 (tm_hour t)") auto
  with pad0_digits(2) [of 2 "tm_hour t"] r have "isdigit c" by simp
  then have c: "c \<noteq> CHR ''-''" using isdigit_not_special [of c] by simp
  have "find_str '' - '' (D2 @ '' - '' @ rest)
          = map_option (\<lambda>i. length D2 + i) (find_str '' - '' ('' - '' @ rest))"
    using b2 find_str_skip [of "CHR '' ''" D2 "''- ''" "'' - '' @ rest"] by simp
  then have f2: "find_str '' - '' (D2 @ '' - '' @ rest) = Some 8"
    using find_str_self [of "'' - ''" rest] l2 by simp
  have "find_str '' - '' (CHR '' '' # D2 @ '' - '' @ rest) = Some 9"
    using c f2 by (simp add: D2_def h)
  moreover have "find_str '' - '' (D1 @ CHR '' '' # D2 @ '' - '' @ rest)
          = map_option (\<lambda>i. length D1 + i) (find_str '' - '' (CHR '' '' # D2 @ '' - '' @ rest))"
    using b1 find_str_skip [of "CHR '' ''" D1 "''- ''" "CHR '' '' # D2 @ '' - '' @ rest"] by simp
  ultimately show ?thesis
    using l1 by (simp add: ts)
qed

lemma getlines_terminated:
  "getlines cur (a @ CHR 0x0A # b) = getlines cur (a @ [CHR 0x0A]) @ getlines [] b"
  by (induction a arbitrary: cur) simp_all

lemma getlines_append_line:
  assumes "old = [] \<or> last old = CHR 0x0A" "CHR 0x0A \<notin> set l" "l \<noteq> []"
  shows "getlines [] (old @ l @ [CHR 0x0A]) = getlines [] old @ [l]"
proof (cases "old = []")
  case True
  then show ?thesis using getlines_line [OF assms(2), of "[]" "[]"] by simp
next
  case False
  with assms(1) obtain a where old: "old = a @ [CHR 0x0A]"
    by (metis append_butlast_last_id)
  have "getlines [] (old @ l @ [CHR 0x0A]) = getlines [] (a @ CHR 0x0A # (l @ [CHR 0x0A]))"
    by (simp add: old)
  also have "\<dots> = getlines [] (a @ [CHR 0x0A]) @ getlines [] (l @ [CHR 0x0A])"
    by (rule getlines_terminated)
  also have "getlines [] (l @ [CHR 0x0A]) = [l]"
    using getlines_line [OF assms(2), of "[]" "[]"] by simp
  finally show ?thesis by (simp add: old)
qed

lemma load_daily_logs_loop_append:
  "load_daily_logs_loop P (xs @ ys) w = load_daily_logs_loop P ys (load_daily_logs_loop P xs w)"
  by (induction xs arbitrary: w) (simp_all add: Let_def split: option.splits prod.splits)


lemma pad0_no_newline:
  assumes "0 < k" "0 \<le> v" "v < 10 ^ k"
  shows "CHR 0x0A \<notin> set (pad0 k v)"
  using pad0_digits(2) [OF assms] isdigit_not_special [of "CHR 0x0A"] by auto

lemma strftime_local_no_newline:
  "tm_printable t \<Longrightarrow> CHR 0x0A \<notin> set (strftime_local t)"
  by (simp add: strftime_local_def tm_printable_def pad0_no_newline)

lemma load_daily_logs_loop_line:
  assumes "tm_printable (localtime_r P t)"
    and "mktime P ((localtime_r P t)\<lparr>tm_isdst := - 1\<rparr>) = t"
    and "t \<noteq> - 1"
    and "find_str '' - '' (kind @ '' - '') = Some (length kind)"
  shows "load_daily_logs_loop P [strftime_local (localtime_r P t) @ '' - '' @ kind @ '' - '' @ text] w
           = w\<lparr>dailyLogs := dailyLogs w @ [\<lparr>log_ts = t, log_type = kind, log_text = text\<rparr>]\<rparr>"
proof -
  let ?ts = "strftime_local (localtime_r P t)"
  define line where "line = ?ts @ '' - '' @ kind @ '' - '' @ text"
  have len: "length ?ts = 19"
    using assms(1) by (rule length_strftime_local)
  have ne: "line \<noteq> []" by (simp add: line_def)
  have first: "find_str '' - '' line = Some 19"
    unfolding line_def using assms(1) by (rule find_str_strftime_local)
  have d22: "drop (19 + 3) line = kind @ '' - '' @ text"
    using len by (simp add: line_def)
  have "find_str '' - '' (kind @ '' - '' @ text) = Some (length kind)"
    using assms(4) by (rule find_str_extend)
  then have second: "find_str_from '' - '' line (19 + 3) = Some (length kind + (19 + 3))"
    unfolding find_str_from_def d22 using len by (simp add: line_def)
  have t19: "take 19 line = ?ts"
    using len by (simp add: line_def)
  have pt: "parse_timestamp P ?ts w = (t, w)"
    using assms(1,2,3) by (rule parse_timestamp_strftime_local)
  have ty: "take (length kind + (19 + 3) - (19 + 3)) (drop (19 + 3) line) = kind"
    unfolding d22 by simp
  define pre where "pre = ?ts @ '' - '' @ kind @ '' - ''"
  have pl: "length kind + (19 + 3) + 3 = length pre"
    using len by (simp add: pre_def)
  have lp: "line = pre @ text"
    by (simp add: line_def pre_def)
  have tx: "(if length kind + (19 + 3) + 3 < length line
             then drop (length kind + (19 + 3) + 3) line else []) = text"
    unfolding pl lp by simp
  have "load_daily_logs_loop P [line] w
           = w\<lparr>dailyLogs := dailyLogs w @ [\<lparr>log_ts = t, log_type = kind, log_text = text\<rparr>]\<rparr>"
    using ne
    by (simp only: load_daily_logs_loop.simps first second option.case t19 pt Let_def
          prod.case ty tx if_False)
  then show ?thesis by (simp only: line_def)
qed

lemma append_daily_log_file:
  assumes "can_open P (path_in_data P ''daily_logs.txt'')" "clock w (ticks w) \<noteq> 0"
  shows "files (append_daily_log P kind text w) (path_in_data P ''daily_logs.txt'')
           = Some ((case files w (path_in_data P ''daily_logs.txt'') of None \<Rightarrow> [] | Some old \<Rightarrow> old)
                    @ (strftime_local (localtime_r P (clock w (ticks w))) @ '' - '' @ kind
                       @ '' - '' @ text) @ [CHR 0x0A])"
  using assms
  by (simp add: append_daily_log_def time_now_def human_log_line_def append_line_to_file_def
        format_time_local_def Let_def)

text \<open>
  Claim C3, as the code has it. Let an event be appended whose kind and text contain no
  line feed and whose kind, followed by the separator, has its first \<^verbatim>\<open>" - "\<close> at the
  separator (the kind holds no \<^verbatim>\<open>" - "\<close> and does not end in \<^verbatim>\<open>" -"\<close>); the text may contain
  \<^verbatim>\<open>" - "\<close>. Let the log file be writable and empty, absent or ending in a line feed, the
  clock reading be neither 0 nor -1, its local broken-down time have a year of four
  digits, and \<^verbatim>\<open>mktime\<close> invert \<^verbatim>\<open>localtime_r\<close> at it. Then reloading the log from the file yields a
  list whose last event has exactly the kind, the text and the timestamp (in seconds) of
  the appended event.
\<close>

theorem event_log_round_trip:
  assumes "can_open P (path_in_data P ''daily_logs.txt'')"
    and "case files w (path_in_data P ''daily_logs.txt'') of
           None \<Rightarrow> True | Some old \<Rightarrow> old = [] \<or> last old = CHR 0x0A"
    and "clock w (ticks w) \<noteq> 0" and "clock w (ticks w) \<noteq> - 1"
    and "tm_printable (localtime_r P (clock w (ticks w)))"
    and "mktime P ((localtime_r P (clock w (ticks w)))\<lparr>tm_isdst := - 1\<rparr>) = clock w (ticks w)"
    and "find_str '' - '' (kind @ '' - '') = Some (length kind)"
    and "CHR 0x0A \<notin> set kind" and "CHR 0x0A \<notin> set text"
  shows "dailyLogs (load_daily_logs P (append_daily_log P kind text w)) \<noteq> []
         \<and> last (dailyLogs (load_daily_logs P (append_daily_log P kind text w)))
             = \<lparr>log_ts = clock w (ticks w), log_type = kind, log_text = text\<rparr>"
proof -
  let ?path = "path_in_data P ''daily_logs.txt''"
  let ?now = "clock w (ticks w)"
  let ?line = "strftime_local (localtime_r P ?now) @ '' - '' @ kind @ '' - '' @ text"
  let ?w' = "append_daily_log P kind text w"
  define old where "old = (case files w ?path of None \<Rightarrow> [] | Some old \<Rightarrow> old)"
  have oldnl: "old = [] \<or> last old = CHR 0x0A"
    using assms(2) by (simp add: old_def split: option.splits)
  have fl: "files ?w' ?path = Some (old @ ?line @ [CHR 0x0A])"
    unfolding old_def using assms(1,3) by (rule append_daily_log_file)
  have nl: "CHR 0x0A \<notin> set ?line"
    using assms(8,9) strftime_local_no_newline [OF assms(5)] by simp
  have ne: "?line \<noteq> []"
    using length_strftime_local [OF assms(5)] by auto
  have lines: "getlines [] (old @ ?line @ [CHR 0x0A]) = getlines [] old @ [?line]"
    using oldnl nl ne by (rule getlines_append_line)
  define w2 where "w2 = load_daily_logs_loop P (getlines [] old) (?w'\<lparr>dailyLogs := []\<rparr>)"
  have "load_daily_logs P ?w'
          = load_daily_logs_loop P (getlines [] (old @ ?line @ [CHR 0x0A])) (?w'\<lparr>dailyLogs := []\<rparr>)"
    by (simp add: load_daily_logs_def fl Let_def del: load_daily_logs_loop.simps)
  also have "\<dots> = load_daily_logs_loop P [?line] w2"
    by (simp only: lines load_daily_logs_loop_append w2_def)
  also have "\<dots> = w2\<lparr>dailyLogs := dailyLogs w2
                @ [\<lparr>log_ts = ?now, log_type = kind, log_text = text\<rparr>]\<rparr>"
    using assms(5,6,4,7) by (rule load_daily_logs_loop_line)
  finally show ?thesis by simp
qed

lemma utc_mktime_example:
  "utc_mktime \<lparr>tm_sec = 0, tm_min = 0, tm_hour = 12, tm_mday = 2, tm_mon = 0, tm_year = 124, tm_isdst = - 1\<rparr>
     = 1704196800"
  by code_simp

lemma kind_example:
  "find_str '' - '' (''HOURLY'' @ '' - '') = Some (length ''HOURLY'')"
  by code_simp

theorem event_log_round_trip_witness:
  "can_open utc_platform (path_in_data utc_platform ''daily_logs.txt'')
   \<and> tm_printable (localtime_r utc_platform 1704196800)
   \<and> mktime utc_platform ((localtime_r utc_platform 1704196800)\<lparr>tm_isdst := - 1\<rparr>) = 1704196800
   \<and> find_str '' - '' (''HOURLY'' @ '' - '') = Some (length ''HOURLY'')
   \<and> last (dailyLogs (load_daily_logs utc_platform
        (append_daily_log utc_platform ''HOURLY'' ''met - with team''
           ((fresh_world 1704196800)
              \<lparr>files := [path_in_data utc_platform ''daily_logs.txt'' \<mapsto> ''free text'' @ [CHR 0x0A]]\<rparr>))))
      = \<lparr>log_ts = 1704196800, log_type = ''HOURLY'', log_text = ''met - with team''\<rparr>"
proof -
  let ?w = "(fresh_world 1704196800)
              \<lparr>files := [path_in_data utc_platform ''daily_logs.txt'' \<mapsto> ''free text'' @ [CHR 0x0A]]\<rparr>"
  have c: "clock ?w (ticks ?w) = 1704196800"
    by (simp add: fresh_world_def)
  have h1: "can_open utc_platform (path_in_data utc_platform ''daily_logs.txt'')"
    by (simp add: utc_platform_def)
  have h2: "case files ?w (path_in_data utc_platform ''daily_logs.txt'') of
           None \<Rightarrow> True | Some old \<Rightarrow> old = [] \<or> last old = CHR 0x0A"
    by simp
  have h3: "clock ?w (ticks ?w) \<noteq> 0" and h4: "clock ?w (ticks ?w) \<noteq> - 1"
    by (simp_all add: fresh_world_def)
  have h5: "tm_printable (localtime_r utc_platform (clock ?w (ticks ?w)))"
    by (simp add: fresh_world_def utc_platform_def utc_tm_examples tm_printable_def)
  have h6: "mktime utc_platform ((localtime_r utc_platform (clock ?w (ticks ?w)))\<lparr>tm_isdst := - 1\<rparr>)
              = clock ?w (ticks ?w)"
    by (simp add: fresh_world_def utc_platform_def utc_tm_examples utc_mktime_example)
  have h8: "CHR 0x0A \<notin> set ''HOURLY''" and h9: "CHR 0x0A \<notin> set ''met - with team''"
    by simp_all
  show ?thesis
    using event_log_round_trip [OF h1 h2 h3 h4 h5 h6 kind_example h8 h9] h1 h5 h6 kind_example
    by (simp add: fresh_world_def)
qed

text \<open>
  For a text with a line feed and no \<^verbatim>\<open>" - "\<close> the round trip fails: the status text
  \<^verbatim>\<open>a\<close>, line feed, \<^verbatim>\<open>b\<close> is written as two lines and loaded as two events, the second of
  kind \<^verbatim>\<open>LOG\<close> with the time of the load.
\<close>

theorem event_log_round_trip_counterexample:
  "find_str '' - '' (''a'' @ [CHR 0x0A] @ ''b'') = None
   \<and> dailyLogs (load_daily_logs utc_platform
        (append_daily_log utc_platform ''DAILY_STATUS'' (''a'' @ [CHR 0x0A] @ ''b'')
           (fresh_world 1704196800)))
      = [\<lparr>log_ts = 1704196800, log_type = ''DAILY_STATUS'', log_text = ''a''\<rparr>,
         \<lparr>log_ts = 1704196801, log_type = ''LOG'', log_text = ''b''\<rparr>]
   \<and> last (dailyLogs (load_daily_logs utc_platform
        (append_daily_log utc_platform ''DAILY_STATUS'' (''a'' @ [CHR 0x0A] @ ''b'')
           (fresh_world 1704196800))))
      \<noteq> \<lparr>log_ts = 1704196800, log_type = ''DAILY_STATUS'', log_text = ''a'' @ [CHR 0x0A] @ ''b''\<rparr>"
proof -
  have e: "find_str '' - '' (''a'' @ [CHR 0x0A] @ ''b'') = None
   \<and> dailyLogs (load_daily_logs utc_platform
        (append_daily_log utc_platform ''DAILY_STATUS'' (''a'' @ [CHR 0x0A] @ ''b'')
           (fresh_world 1704196800)))
      = [\<lparr>log_ts = 1704196800, log_type = ''DAILY_STATUS'', log_text = ''a''\<rparr>,
         \<lparr>log_ts = 1704196801, log_type = ''LOG'', log_text = ''b''\<rparr>]"
    by code_simp
  then show ?thesis by simp
qed

subsection \<open>Clear All\<close>

text \<open>
  Claim C1. \<^verbatim>\<open>clearAllData\<close>, the whole of what the confirmed Clear-All dialog runs,
  clears the three in-memory vectors and leaves every file as it was: a persisted
  \<^verbatim>\<open>daily_logs.txt\<close> is still there afterwards and no \<^verbatim>\<open>cleared_marker.txt\<close> is
  written.
\<close>

theorem clearAllData_keeps_files:
  "files (clearAllData w) = files w
   \<and> files (clearAllData ((fresh_world 1704196800)
        \<lparr>files := [path_in_data utc_platform ''daily_logs.txt'' \<mapsto> ''2024-01-02 11:00:00 - HOURLY - x'' @ [CHR 0x0A]]\<rparr>))
        (path_in_data utc_platform ''daily_logs.txt'') = Some (''2024-01-02 11:00:00 - HOURLY - x'' @ [CHR 0x0A])
   \<and> files (clearAllData ((fresh_world 1704196800)
        \<lparr>files := [path_in_data utc_platform ''daily_logs.txt'' \<mapsto> ''2024-01-02 11:00:00 - HOURLY - x'' @ [CHR 0x0A]]\<rparr>))
        (path_in_data utc_platform ''cleared_marker.txt'') = None"
  by (simp add: clearAllData_def fresh_world_def path_in_data_def user_data_dir_def
      ensure_dir_exists_def utc_platform_def DATA_DIR_NAME_def)


end
